theory Spec2Isabelle
  imports Complex_Main "HOL-Library.Stream"
begin

section \<open>SGAlib: the genetic algorithm engine of \<^verbatim>\<open>src/src/sga.hpp\<close>\<close>

text \<open>
  A shallow embedding of the class template \<^verbatim>\<open>SGA::GeneticAlgorithm<T>\<close>.
  Conventions of the embedding:
  \<^item> a member \<^verbatim>\<open>_name\<close> of the class is the record field \<open>m_name\<close>;
  \<^item> \<^verbatim>\<open>Score\<close> (a C++ \<^verbatim>\<open>double\<close>) is a \<open>real\<close>: comparisons are
    those of the code for every score that is not a NaN. Arithmetic on scores is exact
    here, where the code rounds every operation to \<^verbatim>\<open>double\<close>: the sums of
    \<open>totalScore\<close> and \<open>chromosome_loop\<close>, the division and the additions of
    \<^verbatim>\<open>StochasticUniversal\<close> selection, the scaling of \<open>get_double\<close>. So what
    \<^verbatim>\<open>RouletteWheel\<close> and \<^verbatim>\<open>StochasticUniversal\<close> selection return is that of the code
    only where each of these operations is exact in \<^verbatim>\<open>double\<close>; no theorem below
    states a result of this arithmetic except on such an input;
  \<^item> sizes and indices (\<^verbatim>\<open>unsigned\<close>, \<^verbatim>\<open>size_t\<close>) are \<open>nat\<close>, the arguments of the
    \<^verbatim>\<open>int\<close> overload of \<^verbatim>\<open>Random::get\<close> are \<open>int\<close> (so \<^verbatim>\<open>size()-1\<close> of an empty
    container is \<open>-1\<close>, the value the conversion to \<^verbatim>\<open>int\<close> gives);
  \<^item> a thrown \<^verbatim>\<open>std::runtime_error\<close> and undefined behaviour are values of \<open>error\<close>;
  \<^item> a loop that need not end is a \<^theory_text>\<open>partial_function\<close> in the option monad:
    \<open>None\<close> means that the loop runs forever;
  \<^item> the text written to the log stream is not modelled, only whether writing it
    evaluates \<^verbatim>\<open>lastElement()\<close>.
\<close>

subsection \<open>Introduction: chromosomes, populations, scores, enums\<close>

type_synonym 'g Chromosome = "'g list"

type_synonym 'g Population = "'g Chromosome list"

type_synonym Score = real

text \<open>
  The two scoped enums. A scoped enum has the underlying type \<^verbatim>\<open>int\<close>, so a variable of
  the type can hold a value that no enumerator names; the code tests for it (the final
  \<^verbatim>\<open>else\<close> of \<^verbatim>\<open>isEvolutionOver\<close> and of \<^verbatim>\<open>select\<close>). The last constructor of each
  datatype stands for such a value.
\<close>

datatype EndingCriterion = MaxScore | BestScore | OtherEndingCriterion

datatype SelectionType = RouletteWheel | StochasticUniversal | Tournament | OtherSelectionType

datatype error =
    TournamentTooLarge        \<comment> \<open>"The tournament size cannot be greater than the population size"\<close>
  | UnknownEndingCriterion    \<comment> \<open>"Unknown ending criterion"\<close>
  | UnknownSelectionType      \<comment> \<open>"Unknown selection type"\<close>
  | UndefinedBehaviour        \<comment> \<open>a violated precondition of the standard library\<close>

subsection \<open>The random number generator\<close>

text \<open>
  \<^verbatim>\<open>struct Random\<close> wraps one \<^verbatim>\<open>std::mt19937\<close>. The embedding replaces the engine by the
  outcomes it will produce: a stream of raw integer outcomes and a stream of raw real
  outcomes. A distribution over \<open>[min, max]\<close> consumes the next raw outcome and maps it into
  its range; every value of the range is the image of some raw outcome, so a statement
  for all streams is a statement for every random draw. A distribution whose bounds are
  in the wrong order has undefined behaviour.
\<close>

record Random =
  intOutcomes :: "nat stream"
  realOutcomes :: "real stream"

definition get_double :: "real \<Rightarrow> real \<Rightarrow> Random \<Rightarrow> error + (real \<times> Random)" where
  "get_double lo hi rng =
     (if hi < lo then Inl UndefinedBehaviour
      else Inr (lo + min 1 (max 0 (shd (realOutcomes rng))) * (hi - lo),
                rng\<lparr>realOutcomes := stl (realOutcomes rng)\<rparr>))"

definition get_int :: "int \<Rightarrow> int \<Rightarrow> Random \<Rightarrow> error + (int \<times> Random)" where
  "get_int lo hi rng =
     (if hi < lo then Inl UndefinedBehaviour
      else Inr (lo + int (shd (intOutcomes rng) mod nat (hi - lo + 1)),
                rng\<lparr>intOutcomes := stl (intOutcomes rng)\<rparr>))"

definition get_unsigned :: "nat \<Rightarrow> nat \<Rightarrow> Random \<Rightarrow> error + (nat \<times> Random)" where
  "get_unsigned lo hi rng =
     (if hi < lo then Inl UndefinedBehaviour
      else Inr (lo + shd (intOutcomes rng) mod (hi - lo + 1),
                rng\<lparr>intOutcomes := stl (intOutcomes rng)\<rparr>))"

subsection \<open>Algorithm declarations\<close>

text \<open>
  The functions the user implements: \<^verbatim>\<open>randomGene\<close> (which may draw from \<^verbatim>\<open>Random\<close>) and
  \<^verbatim>\<open>score\<close> (on a chromosome).
\<close>

record 'g User =
  randomGene :: "Random \<Rightarrow> 'g \<times> Random"
  score :: "'g Chromosome \<Rightarrow> Score"

text \<open>
  The attributes of the class. \<open>m_population\<close> is the \<^verbatim>\<open>std::multimap\<close>: a list of
  (score, chromosome) pairs kept in ascending order of score, equal scores in the order
  of their insertion. \<open>m_lastScores\<close> is the \<^verbatim>\<open>std::deque\<close>, front first. \<open>m_logStream\<close>
  names the output stream the reference wrapper refers to.
\<close>

record 'g GeneticAlgorithm =
  m_populationSize :: nat
  m_endCriterion :: EndingCriterion
  m_selectionType :: SelectionType
  m_mutationProbability :: real
  m_maxEndScore :: Score
  m_steadyGenerations :: nat
  m_tournamentSize :: nat
  m_minChromosomeSize :: nat
  m_maxChromosomeSize :: nat
  m_population :: "(Score \<times> 'g Chromosome) list"
  m_lastScores :: "Score list"
  m_run :: bool
  m_generation :: nat
  m_logEnable :: bool
  m_logStream :: nat

subsection \<open>Constructor and stuff\<close>

text \<open>
  The constructor leaves \<^verbatim>\<open>_maxEndScore\<close>, \<^verbatim>\<open>_steadyGenerations\<close> and \<^verbatim>\<open>_generation\<close>
  uninitialised: they are parameters here. \<open>0\<close> names \<^verbatim>\<open>std::cout\<close>.
\<close>

definition GeneticAlgorithm :: "Score \<Rightarrow> nat \<Rightarrow> nat \<Rightarrow> 'g GeneticAlgorithm" where
  "GeneticAlgorithm maxEndScore0 steadyGenerations0 generation0 =
     \<lparr> m_populationSize = 100,
       m_endCriterion = BestScore,
       m_selectionType = Tournament,
       m_mutationProbability = 1 / 100,
       m_maxEndScore = maxEndScore0,
       m_steadyGenerations = steadyGenerations0,
       m_tournamentSize = 10,
       m_minChromosomeSize = 1,
       m_maxChromosomeSize = 100,
       m_population = [],
       m_lastScores = [],
       m_run = False,
       m_generation = generation0,
       m_logEnable = False,
       m_logStream = 0 \<rparr>"

subsection \<open>Useful stuff for the algorithm\<close>

text \<open>\<^verbatim>\<open>_population.insert\<close>: after every entry whose score is not greater.\<close>

fun multimap_insert :: "Score \<times> 'a \<Rightarrow> (Score \<times> 'a) list \<Rightarrow> (Score \<times> 'a) list" where
  "multimap_insert p [] = [p]"
| "multimap_insert p (q # qs) =
     (if fst p < fst q then p # q # qs else q # multimap_insert p qs)"

text \<open>\<^verbatim>\<open>*std::prev(_population.end())\<close>: undefined on an empty container.\<close>

definition lastElement :: "'g GeneticAlgorithm \<Rightarrow> error + (Score \<times> 'g Chromosome)" where
  "lastElement ga =
     (if m_population ga = [] then Inl UndefinedBehaviour else Inr (last (m_population ga)))"

text \<open>\<^verbatim>\<open>score(unsigned index)\<close>.\<close>

definition score_at :: "'g GeneticAlgorithm \<Rightarrow> nat \<Rightarrow> Score" where
  "score_at ga index =
     (if index \<ge> length (m_population ga) then 0 else fst (m_population ga ! index))"

text \<open>\<^verbatim>\<open>totalScore()\<close>, the sum taken exactly (the code adds doubles).\<close>

definition totalScore :: "'g GeneticAlgorithm \<Rightarrow> Score" where
  "totalScore ga = foldl (\<lambda>scoreSum entry. scoreSum + fst entry) 0 (m_population ga)"

text \<open>
  The loop of \<^verbatim>\<open>chromosome(Score fitness)\<close>; \<open>None\<close> when it finds nothing. The
  cumulative fitness is accumulated exactly (the code accumulates doubles).
\<close>

fun chromosome_loop ::
  "Score \<Rightarrow> Score \<Rightarrow> (Score \<times> 'g Chromosome) list \<Rightarrow> 'g Chromosome option" where
  "chromosome_loop fitness cumulativeFitness [] = None"
| "chromosome_loop fitness cumulativeFitness (entry # rest) =
     (if fitness \<le> cumulativeFitness + fst entry then Some (snd entry)
      else chromosome_loop fitness (cumulativeFitness + fst entry) rest)"

definition chromosome_fitness :: "'g GeneticAlgorithm \<Rightarrow> Score \<Rightarrow> error + 'g Chromosome" where
  "chromosome_fitness ga fitness =
     (case chromosome_loop fitness 0 (m_population ga) of
        Some c \<Rightarrow> Inr c
      | None \<Rightarrow> map_sum id snd (lastElement ga))"

text \<open>\<^verbatim>\<open>chromosome(unsigned index)\<close>.\<close>

definition chromosome_index :: "'g GeneticAlgorithm \<Rightarrow> nat \<Rightarrow> error + 'g Chromosome" where
  "chromosome_index ga index =
     (if index \<ge> length (m_population ga) then map_sum id snd (lastElement ga)
      else Inr (snd (m_population ga ! index)))"

text \<open>\<^verbatim>\<open>std::generate\<close> over \<open>n\<close> slots: \<open>n\<close> calls of \<^verbatim>\<open>randomGene\<close>, in order.\<close>

fun generate :: "'g User \<Rightarrow> nat \<Rightarrow> Random \<Rightarrow> 'g list \<times> Random" where
  "generate u 0 rng = ([], rng)"
| "generate u (Suc n) rng =
     (case randomGene u rng of (g, rng') \<Rightarrow>
        (case generate u n rng' of (gs, rng'') \<Rightarrow> (g # gs, rng'')))"

definition randomChromosome ::
  "'g GeneticAlgorithm \<Rightarrow> 'g User \<Rightarrow> Random \<Rightarrow> error + ('g Chromosome \<times> Random)" where
  "randomChromosome ga u rng =
     (case get_unsigned (m_minChromosomeSize ga) (m_maxChromosomeSize ga) rng of
        Inl e \<Rightarrow> Inl e
      | Inr (size0, rng') \<Rightarrow> Inr (generate u size0 rng'))"

subsection \<open>Main functions for the user\<close>

definition stop :: "'g GeneticAlgorithm \<Rightarrow> 'g GeneticAlgorithm" where
  "stop ga = ga\<lparr>m_run := False, m_logEnable := False\<rparr>"

definition best :: "'g GeneticAlgorithm \<Rightarrow> error + 'g Chromosome" where
  "best ga = map_sum id snd (lastElement ga)"

definition setEndingCriterion ::
  "EndingCriterion \<Rightarrow> Score \<Rightarrow> nat \<Rightarrow> 'g GeneticAlgorithm \<Rightarrow> 'g GeneticAlgorithm" where
  "setEndingCriterion type maxScoreForMaxScoreCriterion numberOfGenerations ga =
     (if type = MaxScore
        then ga\<lparr>m_maxEndScore := maxScoreForMaxScoreCriterion, m_endCriterion := type\<rparr>
      else if type = BestScore
        then ga\<lparr>m_steadyGenerations := numberOfGenerations, m_endCriterion := type\<rparr>
      else ga\<lparr>m_endCriterion := type\<rparr>)"

definition setSelectionType ::
  "SelectionType \<Rightarrow> nat \<Rightarrow> 'g GeneticAlgorithm \<Rightarrow> 'g GeneticAlgorithm" where
  "setSelectionType type numberOfChromosomesForTournament ga =
     (if type = Tournament
        then ga\<lparr>m_tournamentSize := numberOfChromosomesForTournament, m_selectionType := type\<rparr>
      else ga\<lparr>m_selectionType := type\<rparr>)"

definition setMainParameters ::
  "nat \<Rightarrow> real \<Rightarrow> 'g GeneticAlgorithm \<Rightarrow> 'g GeneticAlgorithm" where
  "setMainParameters populationSize mutationProbability ga =
     ga\<lparr>m_populationSize := populationSize, m_mutationProbability := mutationProbability\<rparr>"

definition setChromosomesSize ::
  "nat \<Rightarrow> nat \<Rightarrow> 'g GeneticAlgorithm \<Rightarrow> 'g GeneticAlgorithm" where
  "setChromosomesSize minSize maxSize ga =
     ga\<lparr>m_minChromosomeSize := minSize, m_maxChromosomeSize := maxSize\<rparr>"

subsection \<open>Core functions\<close>

text \<open>
  \<^verbatim>\<open>isEvolutionOver\<close> is not const: under \<^verbatim>\<open>BestScore\<close> it updates \<^verbatim>\<open>_lastScores\<close>. The
  result is the answer and the engine after the call. The window of \<open>10\<close> is the literal
  of the code (\<^verbatim>\<open>_steadyGenerations\<close> is not read).
\<close>

definition isEvolutionOver ::
  "'g GeneticAlgorithm \<Rightarrow> error + (bool \<times> 'g GeneticAlgorithm)" where
  "isEvolutionOver ga =
     (if m_endCriterion ga = MaxScore then
        (case lastElement ga of
           Inl e \<Rightarrow> Inl e
         | Inr le \<Rightarrow> Inr (fst le \<ge> m_maxEndScore ga, ga))
      else if m_endCriterion ga = BestScore then
        (case lastElement ga of
           Inl e \<Rightarrow> Inl e
         | Inr le \<Rightarrow>
             (let pushed = m_lastScores ga @ [fst le] in
              if length pushed \<le> 10 then Inr (False, ga\<lparr>m_lastScores := pushed\<rparr>)
              else
                (let popped = tl pushed;
                     first = hd popped;
                     better = list_ex (\<lambda>s. s > first) popped
                 in Inr (\<not> better, ga\<lparr>m_lastScores := popped\<rparr>))))
      else Inl UnknownEndingCriterion)"

text \<open>
  The loop of the \<^verbatim>\<open>StochasticUniversal\<close> branch of \<^verbatim>\<open>select\<close>. With a distance that
  is not positive it need not end. The score advances by exact addition (the code adds
  doubles).
\<close>

partial_function (option) select_loop ::
  "'g GeneticAlgorithm \<Rightarrow> Score \<Rightarrow> Score \<Rightarrow> 'g Population \<Rightarrow> (error + 'g Population) option" where
  "select_loop ga distanceBetweenScores s selected =
     (if s \<le> totalScore ga then
        (case chromosome_fitness ga s of
           Inl e \<Rightarrow> Some (Inl e)
         | Inr c \<Rightarrow> select_loop ga distanceBetweenScores (s + distanceBetweenScores) (selected @ [c]))
      else Some (Inr selected))"

text \<open>The two loops of the \<^verbatim>\<open>Tournament\<close> branch of \<^verbatim>\<open>select\<close>.\<close>

fun select_populate ::
  "'g GeneticAlgorithm \<Rightarrow> nat \<Rightarrow> Random \<Rightarrow> error + (nat list \<times> Random)" where
  "select_populate ga 0 rng = Inr ([], rng)"
| "select_populate ga (Suc n) rng =
     (case get_int 0 (int (length (m_population ga)) - 1) rng of
        Inl e \<Rightarrow> Inl e
      | Inr (x, rng') \<Rightarrow>
          (case select_populate ga n rng' of
             Inl e \<Rightarrow> Inl e
           | Inr (xs, rng'') \<Rightarrow> Inr (nat x # xs, rng'')))"

fun select_best :: "'g GeneticAlgorithm \<Rightarrow> nat list \<Rightarrow> nat \<Rightarrow> Score \<Rightarrow> nat" where
  "select_best ga [] bestIndex bestScore = bestIndex"
| "select_best ga (t # ts) bestIndex bestScore =
     (if score_at ga t > bestScore then select_best ga ts t (score_at ga t)
      else select_best ga ts bestIndex bestScore)"

definition select ::
  "'g GeneticAlgorithm \<Rightarrow> Random \<Rightarrow> (error + ('g Population \<times> Random)) option" where
  "select ga rng =
     (if m_selectionType ga = RouletteWheel then
        (case get_double 0 (totalScore ga) rng of
           Inl e \<Rightarrow> Some (Inl e)
         | Inr (probability, rng') \<Rightarrow>
             (case chromosome_fitness ga probability of
                Inl e \<Rightarrow> Some (Inl e)
              | Inr c \<Rightarrow> Some (Inr ([c], rng'))))
      else if m_selectionType ga = StochasticUniversal then
        (case get_int 1 (int (length (m_population ga) div 10)) rng of
           Inl e \<Rightarrow> Some (Inl e)
         | Inr (toSelect, rng1) \<Rightarrow>
             (let distanceBetweenScores = totalScore ga / real_of_int toSelect in
              case get_double 0 distanceBetweenScores rng1 of
                Inl e \<Rightarrow> Some (Inl e)
              | Inr (firstScore, rng2) \<Rightarrow>
                  (case select_loop ga distanceBetweenScores firstScore [] of
                     None \<Rightarrow> None
                   | Some (Inl e) \<Rightarrow> Some (Inl e)
                   | Some (Inr selected) \<Rightarrow> Some (Inr (selected, rng2)))))
      else if m_selectionType ga = Tournament then
        (case select_populate ga (m_tournamentSize ga) rng of
           Inl e \<Rightarrow> Some (Inl e)
         | Inr (tournament, rng') \<Rightarrow>
             (case tournament of
                [] \<Rightarrow> Some (Inl UndefinedBehaviour)
              | t0 # _ \<Rightarrow>
                  (case chromosome_index ga (select_best ga tournament t0 (score_at ga t0)) of
                     Inl e \<Rightarrow> Some (Inl e)
                   | Inr c \<Rightarrow> Some (Inr ([c], rng')))))
      else Some (Inl UnknownSelectionType))"

text \<open>
  The first loop of \<^verbatim>\<open>cross\<close> chooses the genes to exchange. A draw may return the current
  index, and then the loop makes no progress: it ends only if the draws let it.
\<close>

partial_function (option) cross_select ::
  "nat \<Rightarrow> nat \<Rightarrow> bool \<Rightarrow> nat list \<Rightarrow> Random \<Rightarrow> (error + (nat list \<times> Random)) option" where
  "cross_select index sizeOfSmallest add genesToExchange rng =
     (if index < sizeOfSmallest then
        (case get_unsigned index sizeOfSmallest rng of
           Inl e \<Rightarrow> Some (Inl e)
         | Inr (next, rng') \<Rightarrow>
             cross_select next sizeOfSmallest (\<not> add)
               (if add then genesToExchange @ [index..<next] else genesToExchange) rng')
      else Some (Inr (genesToExchange, rng)))"

text \<open>
  The second loop of \<^verbatim>\<open>cross\<close> exchanges them. Every index is below the size of the
  smaller chromosome (lemma \<open>cross_select_inv\<close>), so no access is out of range.
\<close>

fun cross_exchange ::
  "nat list \<Rightarrow> 'g Chromosome \<Rightarrow> 'g Chromosome \<Rightarrow> 'g Chromosome \<times> 'g Chromosome" where
  "cross_exchange [] r0 r1 = (r0, r1)"
| "cross_exchange (index # rest) r0 r1 =
     cross_exchange rest (r0[index := r1 ! index]) (r1[index := r0 ! index])"

definition cross ::
  "'g Population \<Rightarrow> Random \<Rightarrow> (error + ('g Population \<times> Random)) option" where
  "cross chromosomes rng =
     (case chromosomes of
        c0 # c1 # rest \<Rightarrow>
          (case cross_select 0 (min (length c0) (length c1)) True [] rng of
             None \<Rightarrow> None
           | Some (Inl e) \<Rightarrow> Some (Inl e)
           | Some (Inr (genesToExchange, rng')) \<Rightarrow>
               (case cross_exchange genesToExchange c0 c1 of
                  (r0, r1) \<Rightarrow> Some (Inr (r0 # r1 # rest, rng'))))
      | _ \<Rightarrow> Some (Inl UndefinedBehaviour))"

text \<open>The loop of \<^verbatim>\<open>mutate\<close>, from \<open>i\<close> to \<open>endIndex - 1\<close>.\<close>

function mutate_loop ::
  "'g User \<Rightarrow> nat \<Rightarrow> nat \<Rightarrow> 'g Chromosome \<Rightarrow> Random \<Rightarrow> 'g Chromosome \<times> Random" where
  "mutate_loop u i endIndex chromosome rng =
     (if i < endIndex then
        (case randomGene u rng of
           (g, rng') \<Rightarrow> mutate_loop u (Suc i) endIndex (chromosome[i := g]) rng')
      else (chromosome, rng))"
  by pat_completeness auto
termination
  by (relation "measure (\<lambda>(u, i, endIndex, chromosome, rng). endIndex - i)") auto

declare mutate_loop.simps [simp del]

definition mutate ::
  "'g GeneticAlgorithm \<Rightarrow> 'g User \<Rightarrow> 'g Chromosome \<Rightarrow> Random \<Rightarrow>
     error + ('g Chromosome \<times> Random)" where
  "mutate ga u chromosome rng =
     (case get_double 0 1 rng of
        Inl e \<Rightarrow> Inl e
      | Inr (x, rng1) \<Rightarrow>
          if x \<le> m_mutationProbability ga then
            (case get_int 0 (int (length chromosome) - 1) rng1 of
               Inl e \<Rightarrow> Inl e
             | Inr (beginIndex, rng2) \<Rightarrow>
                 (case get_unsigned (nat beginIndex) (length chromosome) rng2 of
                    Inl e \<Rightarrow> Inl e
                  | Inr (endIndex, rng3) \<Rightarrow>
                      Inr (mutate_loop u (nat beginIndex) endIndex chromosome rng3)))
          else Inr (chromosome, rng1))"

text \<open>
  \<^verbatim>\<open>evolve\<close>, piece by piece. "Compute fitness": the store is cleared and every chromosome
  of the working population is inserted with its score.
\<close>

definition evolve_fitness :: "'g User \<Rightarrow> 'g Population \<Rightarrow> (Score \<times> 'g Chromosome) list" where
  "evolve_fitness u population =
     foldl (\<lambda>store chromosome. multimap_insert (score u chromosome, chromosome) store)
       [] population"

text \<open>"A] Selection": \<^verbatim>\<open>select\<close> is called until the selection holds two chromosomes.\<close>

partial_function (option) evolve_selection ::
  "'g GeneticAlgorithm \<Rightarrow> 'g Population \<Rightarrow> Random \<Rightarrow>
     (error + ('g Population \<times> Random)) option" where
  "evolve_selection ga selection rng =
     (if length selection < 2 then
        (case select ga rng of
           None \<Rightarrow> None
         | Some (Inl e) \<Rightarrow> Some (Inl e)
         | Some (Inr (tmp, rng')) \<Rightarrow> evolve_selection ga (selection @ tmp) rng')
      else Some (Inr (selection, rng)))"

text \<open>
  "B] Recombination": the loop over \<open>i < selection.size()/2\<close>; \<open>k\<close> counts the
  iterations that remain.
\<close>

fun evolve_recombination ::
  "'g Population \<Rightarrow> nat \<Rightarrow> nat \<Rightarrow> 'g Population \<Rightarrow> Random \<Rightarrow>
     (error + ('g Population \<times> Random)) option" where
  "evolve_recombination selection i 0 population rng = Some (Inr (population, rng))"
| "evolve_recombination selection i (Suc k) population rng =
     (case cross [selection ! (2 * i), selection ! (2 * i + 1)] rng of
        None \<Rightarrow> None
      | Some (Inl e) \<Rightarrow> Some (Inl e)
      | Some (Inr (newChromosomes, rng')) \<Rightarrow>
          evolve_recombination selection (Suc i) k
            (population @ [hd newChromosomes, last newChromosomes]) rng')"

text \<open>"Fill the new population until it has reached the wanted size".\<close>

partial_function (option) evolve_fill ::
  "'g GeneticAlgorithm \<Rightarrow> 'g Population \<Rightarrow> Random \<Rightarrow>
     (error + ('g Population \<times> Random)) option" where
  "evolve_fill ga population rng =
     (if length population < m_populationSize ga then
        (case evolve_selection ga [] rng of
           None \<Rightarrow> None
         | Some (Inl e) \<Rightarrow> Some (Inl e)
         | Some (Inr (selection, rng1)) \<Rightarrow>
             (case evolve_recombination selection 0 (length selection div 2) population rng1 of
                None \<Rightarrow> None
              | Some (Inl e) \<Rightarrow> Some (Inl e)
              | Some (Inr (population', rng2)) \<Rightarrow> evolve_fill ga population' rng2))
      else Some (Inr (population, rng)))"

text \<open>"C] Mutation": every chromosome of the new population, in order.\<close>

fun evolve_mutation ::
  "'g GeneticAlgorithm \<Rightarrow> 'g User \<Rightarrow> 'g Population \<Rightarrow> Random \<Rightarrow>
     error + ('g Population \<times> Random)" where
  "evolve_mutation ga u [] rng = Inr ([], rng)"
| "evolve_mutation ga u (chromosome # rest) rng =
     (case mutate ga u chromosome rng of
        Inl e \<Rightarrow> Inl e
      | Inr (chromosome', rng') \<Rightarrow>
          (case evolve_mutation ga u rest rng' of
             Inl e \<Rightarrow> Inl e
           | Inr (rest', rng'') \<Rightarrow> Inr (chromosome' # rest', rng'')))"

text \<open>
  "2. Make it evolve": the working population is cleared, filled and mutated. The result is
  the population that the next turn of the loop scores.
\<close>

definition evolve_make ::
  "'g GeneticAlgorithm \<Rightarrow> 'g User \<Rightarrow> Random \<Rightarrow> (error + ('g Population \<times> Random)) option" where
  "evolve_make ga u rng =
     (case evolve_fill ga [] rng of
        None \<Rightarrow> None
      | Some (Inl e) \<Rightarrow> Some (Inl e)
      | Some (Inr (population, rng')) \<Rightarrow> Some (evolve_mutation ga u population rng'))"

text \<open>
  After the loop: the last log line reads \<^verbatim>\<open>lastElement()\<close> when logging is enabled, then
  \<^verbatim>\<open>_run\<close> and \<^verbatim>\<open>_logEnable\<close> are cleared.
\<close>

definition evolve_end ::
  "'g GeneticAlgorithm \<Rightarrow> Random \<Rightarrow>
     (error \<times> 'g GeneticAlgorithm) + ('g GeneticAlgorithm \<times> Random)" where
  "evolve_end ga rng =
     (if m_logEnable ga \<and> m_population ga = [] then Inl (UndefinedBehaviour, ga)
      else Inr (ga\<lparr>m_run := False, m_logEnable := False\<rparr>, rng))"

text \<open>
  \<^verbatim>\<open>evolve\<close>: an error comes with the engine as it is when the error leaves the function.
\<close>

partial_function (option) evolve ::
  "'g User \<Rightarrow> 'g GeneticAlgorithm \<Rightarrow> 'g Population \<Rightarrow> Random \<Rightarrow>
     ((error \<times> 'g GeneticAlgorithm) + ('g GeneticAlgorithm \<times> Random)) option" where
  "evolve u ga population rng =
     (if m_run ga then
        (let ga1 = ga\<lparr>m_population := evolve_fitness u population\<rparr> in
         if m_logEnable ga1 \<and> m_population ga1 = [] then Some (Inl (UndefinedBehaviour, ga1))
         else
           (case isEvolutionOver ga1 of
              Inl e \<Rightarrow> Some (Inl (e, ga1))
            | Inr (over, ga2) \<Rightarrow>
                if over then Some (evolve_end ga2 rng)
                else
                  (case evolve_make ga2 u rng of
                     None \<Rightarrow> None
                   | Some (Inl e) \<Rightarrow> Some (Inl (e, ga2))
                   | Some (Inr (population', rng')) \<Rightarrow>
                       evolve u (ga2\<lparr>m_generation := m_generation ga2 + 1\<rparr>) population' rng')))
      else Some (evolve_end ga rng))"

text \<open>"Create population": \<open>n\<close> calls of \<^verbatim>\<open>randomChromosome\<close>.\<close>

fun run_create ::
  "'g GeneticAlgorithm \<Rightarrow> 'g User \<Rightarrow> nat \<Rightarrow> Random \<Rightarrow> error + ('g Population \<times> Random)" where
  "run_create ga u 0 rng = Inr ([], rng)"
| "run_create ga u (Suc n) rng =
     (case randomChromosome ga u rng of
        Inl e \<Rightarrow> Inl e
      | Inr (chromosome, rng') \<Rightarrow>
          (case run_create ga u n rng' of
             Inl e \<Rightarrow> Inl e
           | Inr (rest, rng'') \<Rightarrow> Inr (chromosome # rest, rng'')))"

text \<open>
  The outcomes of \<^verbatim>\<open>run\<close>: an exception (or undefined behaviour) leaves it, with the engine
  as it is then; the blocking call returns after \<^verbatim>\<open>evolve\<close>; the non-blocking call returns
  after it has detached a thread that is to run \<^verbatim>\<open>evolve\<close> on the population given. What
  the thread does is not part of the call. \<^verbatim>\<open>DISABLE_NONBLOCKING_MODE\<close> is not defined.
\<close>

datatype 'g RunResult =
    Threw error "'g GeneticAlgorithm"
  | Returned "'g GeneticAlgorithm" Random
  | Detached "'g GeneticAlgorithm" "'g Population" Random

definition run ::
  "'g User \<Rightarrow> bool \<Rightarrow> bool \<Rightarrow> nat \<Rightarrow> 'g GeneticAlgorithm \<Rightarrow> Random \<Rightarrow> 'g RunResult option" where
  "run u blocking enableLogging outputStream ga rng =
     (let ga1 = ga\<lparr>m_logEnable := enableLogging, m_logStream := outputStream\<rparr> in
      if m_selectionType ga1 = Tournament \<and> m_tournamentSize ga1 > m_populationSize ga1
      then Some (Threw TournamentTooLarge ga1)
      else
        (let ga2 = ga1\<lparr>m_lastScores := [], m_run := True, m_generation := 0\<rparr> in
         case run_create ga2 u (m_populationSize ga2) rng of
           Inl e \<Rightarrow> Some (Threw e ga2)
         | Inr (population, rng') \<Rightarrow>
             if blocking then
               (case evolve u ga2 population rng' of
                  None \<Rightarrow> None
                | Some (Inl (e, ga3)) \<Rightarrow> Some (Threw e ga3)
                | Some (Inr (ga3, rng'')) \<Rightarrow> Some (Returned ga3 rng''))
             else Some (Detached ga2 population rng')))"

subsection \<open>Harness and fixtures\<close>

text \<open>
  Feeding the ending criterion the stores of successive generations, as the loop of
  \<^verbatim>\<open>evolve\<close> does with the stores it computes: the result is the number of checks that
  answered "go on" before the first that answered "stop" (\<open>None\<close>: no check of the list
  answered "stop").
\<close>

fun feed_checks :: "'g GeneticAlgorithm \<Rightarrow> (Score \<times> 'g Chromosome) list list \<Rightarrow> nat option" where
  "feed_checks ga [] = None"
| "feed_checks ga (store # stores) =
     (case isEvolutionOver (ga\<lparr>m_population := store\<rparr>) of
        Inl e \<Rightarrow> None
      | Inr (over, ga') \<Rightarrow> if over then Some 0 else map_option Suc (feed_checks ga' stores))"

text \<open>The best score of each store of a list: the score of its last entry.\<close>

definition bests :: "(Score \<times> 'g Chromosome) list list \<Rightarrow> Score list" where
  "bests stores = map (\<lambda>store. fst (last store)) stores"

text \<open>
  The subclass of \<^verbatim>\<open>src/test/algo.hpp\<close>: a gene is a \<^verbatim>\<open>bool\<close> drawn by
  \<^verbatim>\<open>Random::get(0, 1)\<close>, the score of a chromosome is the number of its genes that are
  true. \<open>GAtest_engine\<close> is the engine as its constructor leaves it.
\<close>

definition GAtest_randomGene :: "Random \<Rightarrow> bool \<times> Random" where
  "GAtest_randomGene rng =
     (case get_int 0 1 rng of Inl e \<Rightarrow> (False, rng) | Inr (x, rng') \<Rightarrow> (x \<noteq> 0, rng'))"

definition GAtest_score :: "bool Chromosome \<Rightarrow> Score" where
  "GAtest_score chromosome = foldl (\<lambda>s g. s + (if g then 1 else 0)) 0 chromosome"

definition GAtest :: "bool User" where
  "GAtest = \<lparr>randomGene = GAtest_randomGene, score = GAtest_score\<rparr>"

definition GAtest_engine :: "bool GeneticAlgorithm" where
  "GAtest_engine = GeneticAlgorithm 0 0 0"

text \<open>
  An engine for the examples: population size 2, mutation probability 0, \<^verbatim>\<open>MaxScore\<close>
  with threshold 5, tournaments of size 1, running. The outcomes of \<open>example_rng\<close> make the
  two tournaments pick index 0 and the crossover exchange the only gene; \<open>example_rng'\<close>
  is what is left of them after one generation.
\<close>

definition example_engine :: "bool GeneticAlgorithm" where
  "example_engine =
     (setSelectionType Tournament 1 (setMainParameters 2 0
        (setEndingCriterion MaxScore 5 10 GAtest_engine)))\<lparr>m_run := True\<rparr>"

definition example_rng :: Random where
  "example_rng = \<lparr>intOutcomes = [0, 0, 1] @- sconst 0, realOutcomes = sconst (1 / 2)\<rparr>"

definition example_rng' :: Random where
  "example_rng' = \<lparr>intOutcomes = sconst 0, realOutcomes = sconst (1 / 2)\<rparr>"


text \<open>
  The example engine with the odd population size 3 and a store of three chromosomes;
  the outcomes of \<open>odd_rng\<close> drive two turns of the filling loop.
\<close>

definition odd_engine :: "bool GeneticAlgorithm" where
  "odd_engine = example_engine\<lparr>m_populationSize := 3,
     m_population := [(0, [False]), (0, [False]), (1, [True])]\<rparr>"

definition odd_rng :: Random where
  "odd_rng = \<lparr>intOutcomes = [0, 0, 1, 0, 0, 1] @- sconst 0, realOutcomes = sconst (1 / 2)\<rparr>"

text \<open>
  The example engine with an ending criterion that no enumerator names, and the engine of
  the constructor with a tournament size of 101 for its population size of 100.
\<close>

definition unnamed_engine :: "bool GeneticAlgorithm" where
  "unnamed_engine = example_engine\<lparr>m_endCriterion := OtherEndingCriterion\<rparr>"

definition oversized_engine :: "bool GeneticAlgorithm" where
  "oversized_engine = setSelectionType Tournament 101 GAtest_engine"

text \<open>
  An engine with \<^verbatim>\<open>StochasticUniversal\<close> selection and a store of ten chromosomes of
  score 1, and a random source whose outcomes are all 0: the count drawn is 1 and the
  first score is 0. On this input the arithmetic of the code is exact in \<^verbatim>\<open>double\<close>.
\<close>

definition sus_engine :: "nat GeneticAlgorithm" where
  "sus_engine = (setSelectionType StochasticUniversal 0 (GeneticAlgorithm 0 0 0))
     \<lparr>m_population := [(1, [0]), (1, [1]), (1, [2]), (1, [3]), (1, [4]),
                        (1, [5]), (1, [6]), (1, [7]), (1, [8]), (1, [9])]\<rparr>"

definition sus_rng :: Random where
  "sus_rng = \<lparr>intOutcomes = sconst 0, realOutcomes = sconst 0\<rparr>"



text \<open>
  The engine of the constructor (\<^verbatim>\<open>BestScore\<close>) with population size 2, mutation
  probability 0 and tournaments of size 1, running; and a random source whose integer
  outcomes repeat 0, 0, 1: one generation of this engine consumes exactly one period.
\<close>

definition steady_engine :: "bool GeneticAlgorithm" where
  "steady_engine =
     (setSelectionType Tournament 1 (setMainParameters 2 0 GAtest_engine))\<lparr>m_run := True\<rparr>"

definition cycle_rng :: Random where
  "cycle_rng = \<lparr>intOutcomes = cycle [0, 0, 1], realOutcomes = sconst (1 / 2)\<rparr>"

section \<open>Lemmas\<close>

subsection \<open>Unfolding the fixtures\<close>

lemmas example_defs = example_engine_def example_rng_def example_rng'_def GAtest_engine_def
  GeneticAlgorithm_def setSelectionType_def setMainParameters_def setEndingCriterion_def
  GAtest_def GAtest_score_def GAtest_randomGene_def

subsection \<open>Seeding\<close>

lemma run_create_ok:
  "m_minChromosomeSize ga \<le> m_maxChromosomeSize ga \<Longrightarrow>
   \<exists>population rng'. run_create ga u n rng = Inr (population, rng') \<and> length population = n"
proof (induction n arbitrary: rng)
  case 0
  then show ?case by simp
next
  case (Suc n)
  obtain c rng1 where c: "randomChromosome ga u rng = Inr (c, rng1)"
    using Suc.prems by (simp add: randomChromosome_def get_unsigned_def) (metis surj_pair)
  from Suc.IH[OF Suc.prems, of rng1] obtain p rng2 where "run_create ga u n rng1 = Inr (p, rng2)" "length p = n"
    by blast
  with c show ?case by simp
qed

subsection \<open>The BestScore criterion\<close>

lemma isEvolutionOver_BestScore:
  assumes "m_endCriterion ga = BestScore" "m_population ga \<noteq> []"
  shows "isEvolutionOver ga =
     (let pushed = m_lastScores ga @ [fst (last (m_population ga))] in
      if length pushed \<le> 10 then Inr (False, ga\<lparr>m_lastScores := pushed\<rparr>)
      else Inr (\<forall>s\<in>set (tl pushed). \<not> s > hd (tl pushed), ga\<lparr>m_lastScores := tl pushed\<rparr>))"
  using assms by (simp add: isEvolutionOver_def lastElement_def Let_def list_ex_iff)

lemma feed_first10:
  "m_endCriterion ga = BestScore \<Longrightarrow> feed_checks ga stores = Some k \<Longrightarrow>
   10 \<le> k + length (m_lastScores ga)"
proof (induction stores arbitrary: ga k)
  case Nil
  then show ?case by simp
next
  case (Cons store stores)
  show ?case
  proof (cases "store = []")
    case True
    with Cons.prems show ?thesis by (simp add: isEvolutionOver_def lastElement_def)
  next
    case False
    let ?ga = "ga\<lparr>m_population := store\<rparr>"
    let ?pushed = "m_lastScores ga @ [fst (last store)]"
    have eq: "isEvolutionOver ?ga =
       (if length ?pushed \<le> 10 then Inr (False, ?ga\<lparr>m_lastScores := ?pushed\<rparr>)
        else Inr (\<forall>s\<in>set (tl ?pushed). \<not> s > hd (tl ?pushed), ?ga\<lparr>m_lastScores := tl ?pushed\<rparr>))"
      using isEvolutionOver_BestScore[of ?ga] Cons.prems(1) False by (simp add: Let_def)
    show ?thesis
    proof (cases "length ?pushed \<le> 10")
      case True
      with eq Cons.prems(2) obtain k' where k': "k = Suc k'"
        "feed_checks (?ga\<lparr>m_lastScores := ?pushed\<rparr>) stores = Some k'"
        by auto
      from Cons.IH[OF _ k'(2)] Cons.prems(1) have "10 \<le> k' + length ?pushed" by simp
      with k'(1) show ?thesis by simp
    next
      case long: False
      show ?thesis
      proof (cases "\<forall>s\<in>set (tl ?pushed). \<not> s > hd (tl ?pushed)")
        case True
        with long show ?thesis by simp
      next
        case False
        with eq long Cons.prems(2) obtain k' where k': "k = Suc k'"
          "feed_checks (?ga\<lparr>m_lastScores := tl ?pushed\<rparr>) stores = Some k'"
          by auto
        from long show ?thesis by simp
      qed
    qed
  qed
qed


lemma feed_step:
  assumes "m_endCriterion ga = BestScore" "store \<noteq> []"
  shows "feed_checks ga (store # stores) =
     (let pushed = m_lastScores ga @ [fst (last store)] in
      if length pushed \<le> 10
        then map_option Suc (feed_checks (ga\<lparr>m_population := store, m_lastScores := pushed\<rparr>) stores)
      else if \<forall>s\<in>set (tl pushed). \<not> s > hd (tl pushed) then Some 0
      else map_option Suc (feed_checks (ga\<lparr>m_population := store, m_lastScores := tl pushed\<rparr>) stores))"
  using isEvolutionOver_BestScore[of "ga\<lparr>m_population := store\<rparr>"] assms
  by (simp add: Let_def)

lemma feed_increasing:
  "m_endCriterion ga = BestScore \<Longrightarrow> \<forall>store\<in>set stores. store \<noteq> [] \<Longrightarrow>
   sorted_wrt (<) (m_lastScores ga @ bests stores) \<Longrightarrow> feed_checks ga stores = None"
proof (induction stores arbitrary: ga)
  case Nil
  then show ?case by simp
next
  case (Cons store stores)
  let ?x = "fst (last store)"
  let ?pushed = "m_lastScores ga @ [?x]"
  have ne: "store \<noteq> []" using Cons.prems(2) by simp
  have srt: "sorted_wrt (<) (?pushed @ bests stores)"
    using Cons.prems(3) by (simp add: bests_def)
  show ?case
  proof (cases "length ?pushed \<le> 10")
    case True
    have "feed_checks (ga\<lparr>m_population := store, m_lastScores := ?pushed\<rparr>) stores = None"
      using Cons.IH[of "ga\<lparr>m_population := store, m_lastScores := ?pushed\<rparr>"] Cons.prems srt
      by simp
    with True show ?thesis
      using feed_step[OF Cons.prems(1) ne, of stores] by (simp add: Let_def)
  next
    case False
    then obtain y ys where ys: "m_lastScores ga = y # ys" "length ys \<ge> 9"
      by (cases "m_lastScores ga") auto
    then obtain z zs where zs: "ys = z # zs" by (cases ys) auto
    have tl: "tl ?pushed = z # zs @ [?x]" using ys zs by simp
    have "sorted_wrt (<) (z # zs @ [?x])" using srt ys zs by (simp add: sorted_wrt_append)
    then have "z < ?x" by (simp add: sorted_wrt_append)
    then have better: "\<not> (\<forall>s\<in>set (tl ?pushed). \<not> s > hd (tl ?pushed))"
      unfolding tl by auto
    have "sorted_wrt (<) (tl ?pushed @ bests stores)"
      using srt ys by simp
    then have "feed_checks (ga\<lparr>m_population := store, m_lastScores := tl ?pushed\<rparr>) stores = None"
      using Cons.IH[of "ga\<lparr>m_population := store, m_lastScores := tl ?pushed\<rparr>"] Cons.prems
      by simp
    with False better show ?thesis
      using feed_step[OF Cons.prems(1) ne, of stores] by (simp add: Let_def)
  qed
qed

lemma feed_constant:
  "m_endCriterion ga = BestScore \<Longrightarrow> \<forall>store\<in>set stores. store \<noteq> [] \<and> fst (last store) = c \<Longrightarrow>
   m_lastScores ga = replicate l c \<Longrightarrow> l \<le> 10 \<Longrightarrow> 11 \<le> l + length stores \<Longrightarrow>
   feed_checks ga stores = Some (10 - l)"
proof (induction stores arbitrary: ga l)
  case Nil
  then show ?case by simp
next
  case (Cons store stores)
  have ne: "store \<noteq> []" and c: "fst (last store) = c" using Cons.prems(2) by simp_all
  let ?pushed = "m_lastScores ga @ [fst (last store)]"
  have pushed: "?pushed = replicate (Suc l) c"
    using Cons.prems(3) c by (simp add: replicate_append_same)
  show ?case
  proof (cases "l < 10")
    case True
    have "feed_checks (ga\<lparr>m_population := store, m_lastScores := ?pushed\<rparr>) stores = Some (10 - Suc l)"
      using Cons.IH[of "ga\<lparr>m_population := store, m_lastScores := ?pushed\<rparr>" "Suc l"]
        Cons.prems True pushed by simp
    moreover have "length ?pushed \<le> 10" using True Cons.prems(3) by simp
    ultimately show ?thesis
      using feed_step[OF Cons.prems(1) ne, of stores] True by (simp add: Let_def)
  next
    case False
    then have l: "l = 10" using Cons.prems(4) by simp
    have "tl ?pushed = replicate 10 c" unfolding pushed l by simp
    then have "\<forall>s\<in>set (tl ?pushed). \<not> s > hd (tl ?pushed)" by simp
    moreover have "\<not> length ?pushed \<le> 10" using l Cons.prems(3) by simp
    ultimately show ?thesis
      using feed_step[OF Cons.prems(1) ne, of stores] l by (simp add: Let_def)
  qed
qed


subsection \<open>The population store\<close>

lemma multimap_insert_set: "set (multimap_insert p store) = insert p (set store)"
  by (induction store) auto

lemma multimap_insert_length: "length (multimap_insert p store) = Suc (length store)"
  by (induction store) auto

lemma multimap_insert_sorted:
  "sorted (map fst store) \<Longrightarrow> sorted (map fst (multimap_insert p store))"
  by (induction store) (auto simp: multimap_insert_set)

lemma fitness_fold_set:
  "set (foldl (\<lambda>store chromosome. multimap_insert (score u chromosome, chromosome) store) store0 population)
     = set store0 \<union> (\<lambda>c. (score u c, c)) ` set population"
  by (induction population arbitrary: store0) (auto simp: multimap_insert_set)

lemma fitness_fold_sorted:
  "sorted (map fst store0) \<Longrightarrow>
   sorted (map fst (foldl (\<lambda>store chromosome. multimap_insert (score u chromosome, chromosome) store) store0 population))"
  by (induction population arbitrary: store0) (auto simp: multimap_insert_sorted)

lemma fitness_fold_length:
  "length (foldl (\<lambda>store chromosome. multimap_insert (score u chromosome, chromosome) store) store0 population)
     = length store0 + length population"
  by (induction population arbitrary: store0) (auto simp: multimap_insert_length)

lemma evolve_fitness_set: "set (evolve_fitness u population) = (\<lambda>c. (score u c, c)) ` set population"
  by (simp add: evolve_fitness_def fitness_fold_set)

lemma evolve_fitness_sorted: "sorted (map fst (evolve_fitness u population))"
  by (simp add: evolve_fitness_def fitness_fold_sorted)

lemma evolve_fitness_length: "length (evolve_fitness u population) = length population"
  by (simp add: evolve_fitness_def fitness_fold_length)

lemma evolve_fitness_Nil: "evolve_fitness u population = [] \<longleftrightarrow> population = []"
  using evolve_fitness_length[of u population] by auto

lemma sorted_last_Max:
  "sorted (map fst store) \<Longrightarrow> store \<noteq> [] \<Longrightarrow> fst (last store) = Max (fst ` set store)"
proof -
  assume s: "sorted (map fst store)" and ne: "store \<noteq> []"
  have "last (map fst store) = Max (set (map fst store))"
  proof (rule sym, rule Max_eqI)
    show "finite (set (map fst store))" by simp
    show "last (map fst store) \<in> set (map fst store)" using ne by (intro last_in_set) simp
    fix y assume "y \<in> set (map fst store)"
    then obtain i where i: "i < length (map fst store)" "map fst store ! i = y"
      by (auto simp: in_set_conv_nth)
    have "map fst store ! i \<le> map fst store ! (length (map fst store) - 1)"
      using s i ne by (intro sorted_nth_mono) auto
    with i ne show "y \<le> last (map fst store)" by (simp add: last_conv_nth)
  qed
  with ne show ?thesis by (simp add: last_map)
qed

lemma best_of_fitness:
  assumes "population \<noteq> []"
  shows "\<exists>c. lastElement (ga\<lparr>m_population := evolve_fitness u population\<rparr>)
               = Inr (Max (score u ` set population), c)
             \<and> c \<in> set population \<and> score u c = Max (score u ` set population)"
proof -
  let ?st = "evolve_fitness u population"
  have ne: "?st \<noteq> []" using assms by (simp add: evolve_fitness_Nil)
  have "last ?st \<in> set ?st" using ne by simp
  then obtain c where c: "last ?st = (score u c, c)" "c \<in> set population"
    by (auto simp: evolve_fitness_set)
  have "fst (last ?st) = Max (fst ` set ?st)"
    using sorted_last_Max[OF evolve_fitness_sorted ne] .
  also have "fst ` set ?st = score u ` set population"
    by (simp add: evolve_fitness_set image_image)
  finally have "score u c = Max (score u ` set population)" using c by simp
  with c ne show ?thesis by (auto simp: lastElement_def)
qed

subsection \<open>One turn of the loop of evolve under MaxScore\<close>

lemma evolve_MaxScore_step:
  assumes "m_endCriterion ga = MaxScore" "population \<noteq> []" "m_run ga"
  shows "evolve u ga population rng =
     (let ga1 = ga\<lparr>m_population := evolve_fitness u population\<rparr> in
      if m_maxEndScore ga \<le> Max (score u ` set population)
        then Some (Inr (ga1\<lparr>m_run := False, m_logEnable := False\<rparr>, rng))
      else (case evolve_make ga1 u rng of
              None \<Rightarrow> None
            | Some (Inl e) \<Rightarrow> Some (Inl (e, ga1))
            | Some (Inr (population', rng')) \<Rightarrow>
                evolve u (ga1\<lparr>m_generation := m_generation ga + 1\<rparr>) population' rng'))"
proof -
  let ?ga1 = "ga\<lparr>m_population := evolve_fitness u population\<rparr>"
  obtain c where le: "lastElement ?ga1 = Inr (Max (score u ` set population), c)"
    using best_of_fitness[OF assms(2), where ga = ga and u = u] by blast
  have ne: "evolve_fitness u population \<noteq> []" using assms(2) by (simp add: evolve_fitness_Nil)
  have over: "isEvolutionOver ?ga1 = Inr (m_maxEndScore ga \<le> Max (score u ` set population), ?ga1)"
    using assms(1) le by (simp add: isEvolutionOver_def)
  show ?thesis
    by (subst evolve.simps)
      (simp add: assms(3) ne over Let_def evolve_end_def split: option.splits sum.splits)
qed

subsection \<open>The distributions stay in their range\<close>

lemma get_double_unit:
  "\<exists>x rng1. get_double 0 1 rng = Inr (x, rng1) \<and> 0 \<le> x \<and> x \<le> 1
     \<and> rng1 = rng\<lparr>realOutcomes := stl (realOutcomes rng)\<rparr>"
  by (simp add: get_double_def)

lemma get_int_range:
  "lo \<le> hi \<Longrightarrow> \<exists>x rng1. get_int lo hi rng = Inr (x, rng1) \<and> lo \<le> x \<and> x \<le> hi
     \<and> rng1 = rng\<lparr>intOutcomes := stl (intOutcomes rng)\<rparr>"
proof -
  assume le: "lo \<le> hi"
  have "shd (intOutcomes rng) mod nat (hi - lo + 1) < nat (hi - lo + 1)"
    using le by (intro mod_less_divisor) simp
  then have "int (shd (intOutcomes rng) mod nat (hi - lo + 1)) \<le> hi - lo" using le by linarith
  then show ?thesis using le by (simp add: get_int_def)
qed

lemma get_unsigned_range:
  "lo \<le> hi \<Longrightarrow> \<exists>x rng1. get_unsigned lo hi rng = Inr (x, rng1) \<and> lo \<le> x \<and> x \<le> hi
     \<and> rng1 = rng\<lparr>intOutcomes := stl (intOutcomes rng)\<rparr>"
proof -
  assume le: "lo \<le> hi"
  have "shd (intOutcomes rng) mod Suc (hi - lo) < Suc (hi - lo)"
    by (intro mod_less_divisor) simp
  then have "lo + shd (intOutcomes rng) mod Suc (hi - lo) \<le> hi" using le by linarith
  then show ?thesis using le by (simp add: get_unsigned_def)
qed

subsection \<open>The loop of mutate\<close>

lemma generate_length: "length (fst (generate u n rng)) = n"
proof (induction n arbitrary: rng)
  case 0
  then show ?case by simp
next
  case (Suc n)
  obtain g rng' where g: "randomGene u rng = (g, rng')" by (cases "randomGene u rng")
  obtain gs rng'' where gs: "generate u n rng' = (gs, rng'')" by (cases "generate u n rng'")
  from Suc[of rng'] gs have "length gs = n" by simp
  with g gs show ?case by simp
qed

lemma mutate_loop_eq:
  "i \<le> e \<Longrightarrow> e \<le> length c \<Longrightarrow>
   mutate_loop u i e c rng =
     (take i c @ fst (generate u (e - i) rng) @ drop e c, snd (generate u (e - i) rng))"
proof (induction u i e c rng rule: mutate_loop.induct)
  case (1 u i e c rng)
  show ?case
  proof (cases "i < e")
    case True
    obtain g rng' where g: "randomGene u rng = (g, rng')" by (cases "randomGene u rng")
    obtain k where k: "e - i = Suc k" "e - Suc i = k" using True by (cases "e - i") auto
    have ih: "mutate_loop u (Suc i) e (c[i := g]) rng' =
       (take (Suc i) (c[i := g]) @ fst (generate u k rng') @ drop e (c[i := g]),
        snd (generate u k rng'))"
      using "1.IH"[OF True g[symmetric]] True "1.prems" k by simp
    have t: "take (Suc i) (c[i := g]) = take i c @ [g]"
      using True "1.prems" by (simp add: take_Suc_conv_app_nth)
    have d: "drop e (c[i := g]) = drop e c" using True by simp
    show ?thesis
      apply (subst mutate_loop.simps)
      using True g ih t d k by (simp split: prod.splits)
  next
    case False
    with "1.prems" have "i = e" by simp
    then show ?thesis by (subst mutate_loop.simps) simp
  qed
qed


subsection \<open>The loops of cross\<close>

lemma cross_select_inv:
  assumes "cross_select index m add G rng = Some r"
  shows "index \<le> m \<longrightarrow> (\<forall>g\<in>set G. g < index) \<longrightarrow> distinct G \<longrightarrow>
     (\<exists>G' rng'. r = Inr (G', rng') \<and> (\<forall>g\<in>set G'. g < m) \<and> distinct G')"
proof (rule cross_select.raw_induct[OF _ assms])
  fix cs :: "nat \<Rightarrow> nat \<Rightarrow> bool \<Rightarrow> nat list \<Rightarrow> Random \<Rightarrow> (error + (nat list \<times> Random)) option"
    and index m add G rng r
  assume ih: "\<And>index m add G rng r. cs index m add G rng = Some r \<Longrightarrow>
      index \<le> m \<longrightarrow> (\<forall>g\<in>set G. g < index) \<longrightarrow> distinct G \<longrightarrow>
      (\<exists>G' rng'. r = Inr (G', rng') \<and> (\<forall>g\<in>set G'. g < m) \<and> distinct G')"
  assume body: "(if index < m then
        (case get_unsigned index m rng of
           Inl e \<Rightarrow> Some (Inl e)
         | Inr (next, rng') \<Rightarrow>
             cs next m (\<not> add) (if add then G @ [index..<next] else G) rng')
      else Some (Inr (G, rng))) = Some r"
  show "index \<le> m \<longrightarrow> (\<forall>g\<in>set G. g < index) \<longrightarrow> distinct G \<longrightarrow>
     (\<exists>G' rng'. r = Inr (G', rng') \<and> (\<forall>g\<in>set G'. g < m) \<and> distinct G')"
  proof (intro impI)
    assume le: "index \<le> m" and below: "\<forall>g\<in>set G. g < index" and dist: "distinct G"
    show "\<exists>G' rng'. r = Inr (G', rng') \<and> (\<forall>g\<in>set G'. g < m) \<and> distinct G'"
    proof (cases "index < m")
      case False
      with body le below dist show ?thesis by auto
    next
      case True
      obtain nxt rng1 where nxt: "get_unsigned index m rng = Inr (nxt, rng1)"
          "index \<le> nxt" "nxt \<le> m"
        using get_unsigned_range[OF le, of rng] by blast
      let ?G = "if add then G @ [index..<nxt] else G"
      have rec: "cs nxt m (\<not> add) ?G rng1 = Some r"
        using body True nxt by simp
      have b': "\<forall>g\<in>set ?G. g < nxt" using below nxt by auto
      have d': "distinct ?G" using dist below by auto
      from ih[OF rec] nxt b' d' show ?thesis by blast
    qed
  qed
qed




lemma cross_two:
  "cross [c0, c1] rng =
     (case cross_select 0 (min (length c0) (length c1)) True [] rng of
        None \<Rightarrow> None
      | Some (Inl e) \<Rightarrow> Some (Inl e)
      | Some (Inr (genesToExchange, rng')) \<Rightarrow>
          Some (Inr ([fst (cross_exchange genesToExchange c0 c1),
                      snd (cross_exchange genesToExchange c0 c1)], rng')))"
  by (simp add: cross_def split: option.splits sum.splits prod.splits)

lemma cross_result:
  assumes "cross [c0, c1] rng = Some r"
  shows "\<exists>G rng'. cross_select 0 (min (length c0) (length c1)) True [] rng = Some (Inr (G, rng'))
           \<and> (\<forall>g\<in>set G. g < min (length c0) (length c1)) \<and> distinct G
           \<and> r = Inr ([fst (cross_exchange G c0 c1), snd (cross_exchange G c0 c1)], rng')"
proof -
  obtain s where s: "cross_select 0 (min (length c0) (length c1)) True [] rng = Some s"
    using assms by (auto simp: cross_two split: option.splits)
  from cross_select_inv[OF s] obtain G rng' where
    G: "s = Inr (G, rng')" "\<forall>g\<in>set G. g < min (length c0) (length c1)" "distinct G"
    by auto
  with s assms show ?thesis by (auto simp: cross_two)
qed

subsection \<open>The loops that fill the new population\<close>

lemma select_single:
  assumes "m_selectionType ga = RouletteWheel \<or> m_selectionType ga = Tournament"
    and "select ga rng = Some (Inr (tmp, rng'))"
  shows "length tmp = 1"
  using assms
  by (auto simp: select_def split: sum.splits prod.splits list.splits if_splits)

lemma evolve_selection_inv:
  assumes "evolve_selection ga selection rng = Some r"
  shows "\<forall>sel rng'. r = Inr (sel, rng') \<longrightarrow>
           2 \<le> length sel
           \<and> (m_selectionType ga = RouletteWheel \<or> m_selectionType ga = Tournament \<longrightarrow>
                length selection \<le> 2 \<longrightarrow> length sel = 2)"
proof (rule evolve_selection.raw_induct[OF _ assms])
  fix es :: "'a GeneticAlgorithm \<Rightarrow> 'a Population \<Rightarrow> Random \<Rightarrow> (error + ('a Population \<times> Random)) option"
    and ga selection rng r
  assume ih: "\<And>ga selection rng r. es ga selection rng = Some r \<Longrightarrow>
      \<forall>sel rng'. r = Inr (sel, rng') \<longrightarrow>
           2 \<le> length sel
           \<and> (m_selectionType ga = RouletteWheel \<or> m_selectionType ga = Tournament \<longrightarrow>
                length selection \<le> 2 \<longrightarrow> length sel = 2)"
  assume body: "(if length selection < 2 then
        (case select ga rng of
           None \<Rightarrow> None
         | Some (Inl e) \<Rightarrow> Some (Inl e)
         | Some (Inr (tmp, rng')) \<Rightarrow> es ga (selection @ tmp) rng')
      else Some (Inr (selection, rng))) = Some r"
  show "\<forall>sel rng'. r = Inr (sel, rng') \<longrightarrow>
           2 \<le> length sel
           \<and> (m_selectionType ga = RouletteWheel \<or> m_selectionType ga = Tournament \<longrightarrow>
                length selection \<le> 2 \<longrightarrow> length sel = 2)"
  proof (cases "length selection < 2")
    case False
    with body show ?thesis by auto
  next
    case True
    show ?thesis
    proof (intro allI impI)
      fix sel rng' assume r: "r = Inr (sel, rng')"
      from body True r obtain tmp rng1 where
        s: "select ga rng = Some (Inr (tmp, rng1))" and
        rec: "es ga (selection @ tmp) rng1 = Some r"
        by (auto split: option.splits sum.splits prod.splits)
      from ih[OF rec] r have
        a: "2 \<le> length sel" and
        b: "m_selectionType ga = RouletteWheel \<or> m_selectionType ga = Tournament \<longrightarrow>
             length (selection @ tmp) \<le> 2 \<longrightarrow> length sel = 2"
        by auto
      show "2 \<le> length sel
           \<and> (m_selectionType ga = RouletteWheel \<or> m_selectionType ga = Tournament \<longrightarrow>
                length selection \<le> 2 \<longrightarrow> length sel = 2)"
      proof (intro conjI impI)
        show "2 \<le> length sel" by (rule a)
      next
        assume single: "m_selectionType ga = RouletteWheel \<or> m_selectionType ga = Tournament"
        from select_single[OF single s] have "length tmp = 1" .
        with True have "length (selection @ tmp) \<le> 2" by simp
        with b single show "length sel = 2" by blast
      qed
    qed
  qed
qed

lemma evolve_recombination_length:
  "evolve_recombination selection i k population rng = Some (Inr (population', rng')) \<Longrightarrow>
   length population' = length population + 2 * k"
proof (induction k arbitrary: i population rng)
  case 0
  then show ?case by simp
next
  case (Suc k)
  from Suc.prems obtain new rng1 where
    "evolve_recombination selection (Suc i) k (population @ [hd new, last new]) rng1
       = Some (Inr (population', rng'))"
    by (auto split: option.splits sum.splits prod.splits)
  from Suc.IH[OF this] show ?case by simp
qed

lemma evolve_fill_inv:
  assumes "evolve_fill ga population rng = Some r"
  shows "\<forall>p' rng'. r = Inr (p', rng') \<longrightarrow>
           m_populationSize ga \<le> length p'
           \<and> (even (length population) \<longrightarrow> even (length p'))
           \<and> (m_selectionType ga = RouletteWheel \<or> m_selectionType ga = Tournament \<longrightarrow>
                even (length population) \<longrightarrow>
                length population \<le> m_populationSize ga + m_populationSize ga mod 2 \<longrightarrow>
                length p' = m_populationSize ga + m_populationSize ga mod 2)"
proof (rule evolve_fill.raw_induct[OF _ assms])
  fix ef :: "'a GeneticAlgorithm \<Rightarrow> 'a Population \<Rightarrow> Random \<Rightarrow> (error + ('a Population \<times> Random)) option"
    and ga population rng r
  let ?n = "\<lambda>ga :: 'a GeneticAlgorithm. m_populationSize ga + m_populationSize ga mod 2"
  assume ih: "\<And>ga population rng r. ef ga population rng = Some r \<Longrightarrow>
      \<forall>p' rng'. r = Inr (p', rng') \<longrightarrow>
           m_populationSize ga \<le> length p'
           \<and> (even (length population) \<longrightarrow> even (length p'))
           \<and> (m_selectionType ga = RouletteWheel \<or> m_selectionType ga = Tournament \<longrightarrow>
                even (length population) \<longrightarrow>
                length population \<le> m_populationSize ga + m_populationSize ga mod 2 \<longrightarrow>
                length p' = m_populationSize ga + m_populationSize ga mod 2)"
  assume body: "(if length population < m_populationSize ga then
        (case evolve_selection ga [] rng of
           None \<Rightarrow> None
         | Some (Inl e) \<Rightarrow> Some (Inl e)
         | Some (Inr (selection, rng1)) \<Rightarrow>
             (case evolve_recombination selection 0 (length selection div 2) population rng1 of
                None \<Rightarrow> None
              | Some (Inl e) \<Rightarrow> Some (Inl e)
              | Some (Inr (population', rng2)) \<Rightarrow> ef ga population' rng2))
      else Some (Inr (population, rng))) = Some r"
  show "\<forall>p' rng'. r = Inr (p', rng') \<longrightarrow>
           m_populationSize ga \<le> length p'
           \<and> (even (length population) \<longrightarrow> even (length p'))
           \<and> (m_selectionType ga = RouletteWheel \<or> m_selectionType ga = Tournament \<longrightarrow>
                even (length population) \<longrightarrow>
                length population \<le> m_populationSize ga + m_populationSize ga mod 2 \<longrightarrow>
                length p' = m_populationSize ga + m_populationSize ga mod 2)"
  proof (cases "length population < m_populationSize ga")
    case False
    have "even (length population) \<Longrightarrow> length population \<le> ?n ga \<Longrightarrow> length population = ?n ga"
      using False by presburger
    with body False show ?thesis by auto
  next
    case True
    show ?thesis
    proof (intro allI impI)
      fix p' rng' assume r: "r = Inr (p', rng')"
      from body True r obtain selection rng1 population' rng2 where
        s: "evolve_selection ga [] rng = Some (Inr (selection, rng1))" and
        rc: "evolve_recombination selection 0 (length selection div 2) population rng1
               = Some (Inr (population', rng2))" and
        rec: "ef ga population' rng2 = Some r"
        by (auto split: option.splits sum.splits prod.splits)
      have len: "length population' = length population + 2 * (length selection div 2)"
        using evolve_recombination_length[OF rc] .
      from evolve_selection_inv[OF s] have
        sel: "m_selectionType ga = RouletteWheel \<or> m_selectionType ga = Tournament \<longrightarrow>
               length selection = 2"
        by simp
      from ih[OF rec] r have
        a: "m_populationSize ga \<le> length p'" and
        b: "even (length population') \<longrightarrow> even (length p')" and
        c: "m_selectionType ga = RouletteWheel \<or> m_selectionType ga = Tournament \<longrightarrow>
              even (length population') \<longrightarrow> length population' \<le> ?n ga \<longrightarrow> length p' = ?n ga"
        by auto
      show "m_populationSize ga \<le> length p'
           \<and> (even (length population) \<longrightarrow> even (length p'))
           \<and> (m_selectionType ga = RouletteWheel \<or> m_selectionType ga = Tournament \<longrightarrow>
                even (length population) \<longrightarrow>
                length population \<le> m_populationSize ga + m_populationSize ga mod 2 \<longrightarrow>
                length p' = m_populationSize ga + m_populationSize ga mod 2)"
      proof (intro conjI impI)
        show "m_populationSize ga \<le> length p'" by (rule a)
      next
        assume "even (length population)"
        with len b show "even (length p')" by simp
      next
        assume single: "m_selectionType ga = RouletteWheel \<or> m_selectionType ga = Tournament"
          and ev: "even (length population)"
        from sel single len have l2: "length population' = length population + 2" by simp
        have "even (length population')" using ev l2 by simp
        moreover have "length population' \<le> ?n ga" using True ev l2 by presburger
        ultimately show "length p' = ?n ga" using c single by blast
      qed
    qed
  qed
qed

lemma mutate_length:
  "mutate ga u chromosome rng = Inr (chromosome', rng') \<Longrightarrow> length chromosome' = length chromosome"
proof (cases "chromosome = []")
  case True
  assume "mutate ga u chromosome rng = Inr (chromosome', rng')"
  with True show ?thesis
    by (auto simp: mutate_def get_double_def get_int_def split: if_splits)
next
  case False
  assume m: "mutate ga u chromosome rng = Inr (chromosome', rng')"
  obtain x rng1 where x: "get_double 0 1 rng = Inr (x, rng1)"
    using get_double_unit[of rng] by blast
  show ?thesis
  proof (cases "x \<le> m_mutationProbability ga")
    case no: False
    with m x show ?thesis by (simp add: mutate_def)
  next
    case True
    from m x True obtain bi rng2 e rng3 where
      bi: "get_int 0 (int (length chromosome) - 1) rng1 = Inr (bi, rng2)" and
      e: "get_unsigned (nat bi) (length chromosome) rng2 = Inr (e, rng3)" and
      res: "mutate_loop u (nat bi) e chromosome rng3 = (chromosome', rng')"
      by (auto simp: mutate_def split: sum.splits prod.splits)
    have "nat bi \<le> length chromosome" using e by (auto simp: get_unsigned_def split: if_splits)
    with get_unsigned_range[OF this, of rng2] e have be: "nat bi \<le> e" "e \<le> length chromosome"
      by auto
    from mutate_loop_eq[OF be, of u rng3] res
    have "chromosome' = take (nat bi) chromosome @ fst (generate u (e - nat bi) rng3) @ drop e chromosome"
      by simp
    then show ?thesis using be generate_length[of u "e - nat bi" rng3] by simp
  qed
qed

lemma evolve_mutation_length:
  "evolve_mutation ga u population rng = Inr (population', rng') \<Longrightarrow>
   length population' = length population
   \<and> (\<forall>i<length population. length (population' ! i) = length (population ! i))"
proof (induction population arbitrary: population' rng)
  case Nil
  then show ?case by simp
next
  case (Cons c cs)
  from Cons.prems obtain c' rng1 cs' where
    m: "mutate ga u c rng = Inr (c', rng1)" and
    r: "evolve_mutation ga u cs rng1 = Inr (cs', rng')" and
    p: "population' = c' # cs'"
    by (auto split: sum.splits prod.splits)
  from Cons.IH[OF r] mutate_length[OF m] p show ?case
    by (auto simp: nth_Cons split: nat.splits)
qed


subsection \<open>One generation of the example engine\<close>

lemmas evaluation_defs = evolve_make_def evolve_fill.simps evolve_selection.simps select_def
  get_int_def chromosome_index_def score_at_def cross_def cross_select.simps
  get_unsigned_def mutate_def get_double_def

lemma example_generation:
  "evolve_make (example_engine\<lparr>m_population := [(0, [False]), (1, [True])]\<rparr>) GAtest example_rng
     = Some (Inr ([[False], [False]], example_rng'))"
  by (simp add: evaluation_defs example_defs)

subsection \<open>Which errors can leave which function\<close>

lemma get_double_err: "get_double lo hi rng = Inl e \<Longrightarrow> e = UndefinedBehaviour"
  by (simp add: get_double_def split: if_splits)

lemma get_int_err: "get_int lo hi rng = Inl e \<Longrightarrow> e = UndefinedBehaviour"
  by (simp add: get_int_def split: if_splits)

lemma get_unsigned_err: "get_unsigned lo hi rng = Inl e \<Longrightarrow> e = UndefinedBehaviour"
  by (simp add: get_unsigned_def split: if_splits)

lemma lastElement_err: "lastElement ga = Inl e \<Longrightarrow> e = UndefinedBehaviour"
  by (simp add: lastElement_def split: if_splits)

lemma chromosome_index_err: "chromosome_index ga i = Inl e \<Longrightarrow> e = UndefinedBehaviour"
  by (auto simp: chromosome_index_def lastElement_def split: if_splits)

lemma chromosome_fitness_err: "chromosome_fitness ga f = Inl e \<Longrightarrow> e = UndefinedBehaviour"
  by (auto simp: chromosome_fitness_def lastElement_def split: if_splits option.splits)

lemma select_loop_err:
  assumes "select_loop ga d s selected = Some r"
  shows "\<forall>e. r = Inl e \<longrightarrow> e = UndefinedBehaviour"
proof (rule select_loop.raw_induct[OF _ assms])
  fix sl :: "'a GeneticAlgorithm \<Rightarrow> Score \<Rightarrow> Score \<Rightarrow> 'a Population \<Rightarrow> (error + 'a Population) option"
    and ga d s selected r
  assume ih: "\<And>ga d s selected r. sl ga d s selected = Some r \<Longrightarrow>
      \<forall>e. r = Inl e \<longrightarrow> e = UndefinedBehaviour"
  assume body: "(if s \<le> totalScore ga then
        (case chromosome_fitness ga s of
           Inl e \<Rightarrow> Some (Inl e)
         | Inr c \<Rightarrow> sl ga d (s + d) (selected @ [c]))
      else Some (Inr selected)) = Some r"
  show "\<forall>e. r = Inl e \<longrightarrow> e = UndefinedBehaviour"
  proof (cases "s \<le> totalScore ga")
    case False
    with body show ?thesis by auto
  next
    case True
    show ?thesis
    proof (cases "chromosome_fitness ga s")
      case (Inl e)
      with body True chromosome_fitness_err[OF Inl] show ?thesis by auto
    next
      case (Inr c)
      with body True have "sl ga d (s + d) (selected @ [c]) = Some r" by simp
      from ih[OF this] show ?thesis .
    qed
  qed
qed

lemma select_populate_err: "select_populate ga n rng = Inl e \<Longrightarrow> e = UndefinedBehaviour"
proof (induction n arbitrary: rng)
  case 0
  then show ?case by simp
next
  case (Suc n)
  then show ?case
    by (auto split: sum.splits prod.splits dest: get_int_err)
qed

lemma select_err: "select ga rng = Some (Inl e) \<Longrightarrow> e \<noteq> TournamentTooLarge"
proof -
  assume s: "select ga rng = Some (Inl e)"
  consider (rw) "m_selectionType ga = RouletteWheel" | (su) "m_selectionType ga = StochasticUniversal"
    | (t) "m_selectionType ga = Tournament" | (o) "m_selectionType ga = OtherSelectionType"
    by (cases "m_selectionType ga") auto
  then show ?thesis
  proof cases
    case rw
    with s show ?thesis
      by (auto simp: select_def split: sum.splits prod.splits
          dest: get_double_err chromosome_fitness_err)
  next
    case su
    with s show ?thesis
      by (auto simp: select_def Let_def split: sum.splits prod.splits option.splits
          dest: get_double_err get_int_err select_loop_err)
  next
    case t
    with s show ?thesis
      by (auto simp: select_def split: sum.splits prod.splits list.splits
          dest: select_populate_err chromosome_index_err)
  next
    case o
    with s show ?thesis by (auto simp: select_def)
  qed
qed


lemma evolve_recombination_err:
  "evolve_recombination selection i k population rng \<noteq> Some (Inl e)"
proof (induction k arbitrary: i population rng)
  case 0
  then show ?case by simp
next
  case (Suc k)
  show ?case
  proof (cases "cross [selection ! (2 * i), selection ! (2 * i + 1)] rng")
    case None
    then show ?thesis by simp
  next
    case (Some r)
    from cross_result[OF Some] obtain new rng1 where "r = Inr (new, rng1)" by blast
    with Some Suc.IH show ?thesis by simp
  qed
qed

lemma evolve_selection_err:
  assumes "evolve_selection ga selection rng = Some r"
  shows "\<forall>e. r = Inl e \<longrightarrow> e \<noteq> TournamentTooLarge"
proof (rule evolve_selection.raw_induct[OF _ assms])
  fix es :: "'a GeneticAlgorithm \<Rightarrow> 'a Population \<Rightarrow> Random \<Rightarrow> (error + ('a Population \<times> Random)) option"
    and ga selection rng r
  assume ih: "\<And>ga selection rng r. es ga selection rng = Some r \<Longrightarrow>
      \<forall>e. r = Inl e \<longrightarrow> e \<noteq> TournamentTooLarge"
  assume body: "(if length selection < 2 then
        (case select ga rng of
           None \<Rightarrow> None
         | Some (Inl e) \<Rightarrow> Some (Inl e)
         | Some (Inr (tmp, rng')) \<Rightarrow> es ga (selection @ tmp) rng')
      else Some (Inr (selection, rng))) = Some r"
  show "\<forall>e. r = Inl e \<longrightarrow> e \<noteq> TournamentTooLarge"
    using body ih select_err[of ga rng]
    by (auto split: if_splits option.splits sum.splits prod.splits)
qed

lemma evolve_fill_err:
  assumes "evolve_fill ga population rng = Some r"
  shows "\<forall>e. r = Inl e \<longrightarrow> e \<noteq> TournamentTooLarge"
proof (rule evolve_fill.raw_induct[OF _ assms])
  fix ef :: "'a GeneticAlgorithm \<Rightarrow> 'a Population \<Rightarrow> Random \<Rightarrow> (error + ('a Population \<times> Random)) option"
    and ga population rng r
  assume ih: "\<And>ga population rng r. ef ga population rng = Some r \<Longrightarrow>
      \<forall>e. r = Inl e \<longrightarrow> e \<noteq> TournamentTooLarge"
  assume body: "(if length population < m_populationSize ga then
        (case evolve_selection ga [] rng of
           None \<Rightarrow> None
         | Some (Inl e) \<Rightarrow> Some (Inl e)
         | Some (Inr (selection, rng1)) \<Rightarrow>
             (case evolve_recombination selection 0 (length selection div 2) population rng1 of
                None \<Rightarrow> None
              | Some (Inl e) \<Rightarrow> Some (Inl e)
              | Some (Inr (population', rng2)) \<Rightarrow> ef ga population' rng2))
      else Some (Inr (population, rng))) = Some r"
  show "\<forall>e. r = Inl e \<longrightarrow> e \<noteq> TournamentTooLarge"
  proof (intro allI impI)
    fix e assume r: "r = Inl e"
    show "e \<noteq> TournamentTooLarge"
    proof (cases "length population < m_populationSize ga")
      case False
      with body r show ?thesis by simp
    next
      case True
      show ?thesis
      proof (cases "evolve_selection ga [] rng")
        case None
        with body True show ?thesis by simp
      next
        case (Some s)
        show ?thesis
        proof (cases s)
          case (Inl e')
          with Some body True r evolve_selection_err[OF Some] show ?thesis by auto
        next
          case (Inr sr)
          obtain selection rng1 where sr: "sr = (selection, rng1)" by (cases sr)
          show ?thesis
          proof (cases "evolve_recombination selection 0 (length selection div 2) population rng1")
            case None
            with Some Inr sr body True show ?thesis by simp
          next
            case rc: (Some t)
            show ?thesis
            proof (cases t)
              case (Inl e')
              with rc evolve_recombination_err show ?thesis by blast
            next
              case (Inr pr)
              obtain population' rng2 where "pr = (population', rng2)" by (cases pr)
              with rc Inr Some \<open>s = Inr sr\<close> sr body True
              have "ef ga population' rng2 = Some r" by simp
              from ih[OF this] r show ?thesis by simp
            qed
          qed
        qed
      qed
    qed
  qed
qed

lemma mutate_err: "mutate ga u chromosome rng = Inl e \<Longrightarrow> e = UndefinedBehaviour"
  by (auto simp: mutate_def split: sum.splits prod.splits if_splits
      dest: get_double_err get_int_err get_unsigned_err)

lemma evolve_mutation_err:
  "evolve_mutation ga u population rng = Inl e \<Longrightarrow> e = UndefinedBehaviour"
proof (induction population arbitrary: rng)
  case Nil
  then show ?case by simp
next
  case (Cons c cs)
  then show ?case by (auto split: sum.splits prod.splits dest: mutate_err)
qed

lemma evolve_make_err: "evolve_make ga u rng = Some (Inl e) \<Longrightarrow> e \<noteq> TournamentTooLarge"
  by (auto simp: evolve_make_def split: option.splits sum.splits prod.splits
      dest: evolve_fill_err evolve_mutation_err)

lemma isEvolutionOver_err: "isEvolutionOver ga = Inl e \<Longrightarrow> e \<noteq> TournamentTooLarge"
  by (auto simp: isEvolutionOver_def Let_def split: if_splits sum.splits dest: lastElement_err)

lemma evolve_end_err: "evolve_end ga rng = Inl (e, ga') \<Longrightarrow> e \<noteq> TournamentTooLarge"
  by (auto simp: evolve_end_def split: if_splits)


lemma evolve_err:
  assumes "evolve u ga population rng = Some r"
  shows "\<forall>e ga'. r = Inl (e, ga') \<longrightarrow> e \<noteq> TournamentTooLarge"
proof (rule evolve.raw_induct[OF _ assms])
  fix ev :: "'a User \<Rightarrow> 'a GeneticAlgorithm \<Rightarrow> 'a Population \<Rightarrow> Random \<Rightarrow>
     ((error \<times> 'a GeneticAlgorithm) + ('a GeneticAlgorithm \<times> Random)) option"
    and u ga population rng r
  assume ih: "\<And>u ga population rng r. ev u ga population rng = Some r \<Longrightarrow>
      \<forall>e ga'. r = Inl (e, ga') \<longrightarrow> e \<noteq> TournamentTooLarge"
  assume body: "(if m_run ga then
        (let ga1 = ga\<lparr>m_population := evolve_fitness u population\<rparr> in
         if m_logEnable ga1 \<and> m_population ga1 = [] then Some (Inl (UndefinedBehaviour, ga1))
         else
           (case isEvolutionOver ga1 of
              Inl e \<Rightarrow> Some (Inl (e, ga1))
            | Inr (over, ga2) \<Rightarrow>
                if over then Some (evolve_end ga2 rng)
                else
                  (case evolve_make ga2 u rng of
                     None \<Rightarrow> None
                   | Some (Inl e) \<Rightarrow> Some (Inl (e, ga2))
                   | Some (Inr (population', rng')) \<Rightarrow>
                       ev u (ga2\<lparr>m_generation := m_generation ga2 + 1\<rparr>) population' rng')))
      else Some (evolve_end ga rng)) = Some r"
  show "\<forall>e ga'. r = Inl (e, ga') \<longrightarrow> e \<noteq> TournamentTooLarge"
  proof (intro allI impI)
    fix e ga' assume r: "r = Inl (e, ga')"
    let ?ga1 = "ga\<lparr>m_population := evolve_fitness u population\<rparr>"
    show "e \<noteq> TournamentTooLarge"
    proof (cases "m_run ga")
      case False
      with body r have "evolve_end ga rng = Inl (e, ga')" by simp
      then show ?thesis by (rule evolve_end_err)
    next
      case run: True
      show ?thesis
      proof (cases "m_logEnable ?ga1 \<and> m_population ?ga1 = []")
        case True
        with body run r show ?thesis by (auto simp: Let_def)
      next
        case nolog: False
        show ?thesis
        proof (cases "isEvolutionOver ?ga1")
          case (Inl e')
          with body run nolog r have "e' = e" by (auto simp: Let_def)
          with isEvolutionOver_err[OF Inl] show ?thesis by simp
        next
          case (Inr p)
          obtain over ga2 where p: "p = (over, ga2)" by (cases p)
          show ?thesis
          proof (cases over)
            case True
            with body run nolog r Inr p have "evolve_end ga2 rng = Inl (e, ga')"
              by (auto simp: Let_def)
            then show ?thesis by (rule evolve_end_err)
          next
            case False
            show ?thesis
            proof (cases "evolve_make ga2 u rng")
              case None
              with body run nolog Inr p False show ?thesis by (auto simp: Let_def)
            next
              case (Some m)
              show ?thesis
              proof (cases m)
                case mk: (Inl e')
                with body run nolog Inr p False Some r have "e' = e" by (auto simp: Let_def)
                with evolve_make_err[of ga2 u rng e'] Some mk show ?thesis by simp
              next
                case mk: (Inr q)
                obtain population' rng' where "q = (population', rng')" by (cases q)
                with body run nolog Inr p False Some mk
                have "ev u (ga2\<lparr>m_generation := m_generation ga2 + 1\<rparr>) population' rng' = Some r"
                  by (auto simp: Let_def)
                from ih[OF this] r show ?thesis by simp
              qed
            qed
          qed
        qed
      qed
    qed
  qed
qed

lemma run_create_err: "run_create ga u n rng = Inl e \<Longrightarrow> e = UndefinedBehaviour"
proof (induction n arbitrary: rng)
  case 0
  then show ?case by simp
next
  case (Suc n)
  then show ?case
    by (auto simp: randomChromosome_def split: sum.splits prod.splits dest: get_unsigned_err)
qed

subsection \<open>StochasticUniversal selection on the example store\<close>

lemma sus_engine_facts:
  "m_selectionType sus_engine = StochasticUniversal" "length (m_population sus_engine) = 10"
  "totalScore sus_engine = 10"
  by (simp_all add: sus_engine_def setSelectionType_def GeneticAlgorithm_def totalScore_def)

lemma sus_chromosomes:
  "chromosome_fitness sus_engine 0 = Inr [0]" "chromosome_fitness sus_engine 10 = Inr [9]"
  by (simp_all add: sus_engine_def chromosome_fitness_def)

lemma sus_loop: "select_loop sus_engine 10 0 [] = Some (Inr [[0], [9]])"
  by (simp add: select_loop.simps sus_engine_facts sus_chromosomes)

lemma sus_selection:
  "select sus_engine sus_rng = Some (Inr ([[0], [9]], sus_rng))"
  by (simp add: select_def Let_def sus_engine_facts get_int_def get_double_def sus_rng_def
        sus_loop)

subsection \<open>When the first loop of cross ends\<close>





subsection \<open>A complete run of the steady engine\<close>

lemma steady_generation:
  assumes "m_selectionType ga = Tournament" "m_tournamentSize ga = 1" "m_populationSize ga = 2"
    "m_mutationProbability ga = 0" "m_population ga = [(0, [False]), (x, c)]"
  shows "evolve_make ga GAtest cycle_rng = Some (Inr ([[False], [False]], cycle_rng))"
  using assms
  by (simp add: evaluation_defs cycle_rng_def GAtest_def GAtest_randomGene_def)


lemma steady_fitness:
  "evolve_fitness GAtest [[True], [False]] = [(0, [False]), (1, [True])]"
  "evolve_fitness GAtest [[False], [False]] = [(0, [False]), (0, [False])]"
  by (simp_all add: evolve_fitness_def GAtest_def GAtest_score_def)

lemma steady_step:
  assumes "m_selectionType ga = Tournament" "m_tournamentSize ga = 1" "m_populationSize ga = 2"
    "m_mutationProbability ga = 0" "m_endCriterion ga = BestScore" "m_run ga" "\<not> m_logEnable ga"
    "length (m_lastScores ga) < 10"
    "population = [[True], [False]] \<or> population = [[False], [False]]"
  shows "evolve GAtest ga population cycle_rng =
     evolve GAtest
       (ga\<lparr>m_population := evolve_fitness GAtest population,
            m_lastScores := m_lastScores ga @ [fst (last (evolve_fitness GAtest population))],
            m_generation := m_generation ga + 1\<rparr>)
       [[False], [False]] cycle_rng"
proof -
  let ?ga1 = "ga\<lparr>m_population := evolve_fitness GAtest population\<rparr>"
  let ?ga2 = "?ga1\<lparr>m_lastScores := m_lastScores ga @ [fst (last (evolve_fitness GAtest population))]\<rparr>"
  have ne: "evolve_fitness GAtest population \<noteq> []"
    using assms(9) by (auto simp: steady_fitness)
  have over: "isEvolutionOver ?ga1 = Inr (False, ?ga2)"
    using assms(5,8) ne by (simp add: isEvolutionOver_def lastElement_def Let_def)
  obtain x c where st: "m_population ?ga2 = [(0, [False]), (x, c)]"
    using assms(9) by (auto simp: steady_fitness)
  have mk: "evolve_make ?ga2 GAtest cycle_rng = Some (Inr ([[False], [False]], cycle_rng))"
    by (rule steady_generation[OF _ _ _ _ st]) (simp_all add: assms)
  show ?thesis
    by (subst evolve.simps) (simp add: assms(6,7) ne over mk Let_def)
qed

lemma steady_stop:
  assumes "m_endCriterion ga = BestScore" "m_run ga" "\<not> m_logEnable ga"
    "m_lastScores ga = [1, 0, 0, 0, 0, 0, 0, 0, 0, 0]"
  shows "evolve GAtest ga [[False], [False]] cycle_rng =
     Some (Inr (ga\<lparr>m_population := [(0, [False]), (0, [False])],
                    m_lastScores := [0, 0, 0, 0, 0, 0, 0, 0, 0, 0],
                    m_run := False, m_logEnable := False\<rparr>, cycle_rng))"
  by (subst evolve.simps)
    (simp add: assms steady_fitness isEvolutionOver_def lastElement_def Let_def evolve_end_def)

lemma steady_run:
  "evolve GAtest steady_engine [[True], [False]] cycle_rng =
     Some (Inr (steady_engine\<lparr>m_population := [(0, [False]), (0, [False])],
                    m_lastScores := [0, 0, 0, 0, 0, 0, 0, 0, 0, 0],
                    m_generation := 10,
                    m_run := False, m_logEnable := False\<rparr>, cycle_rng))"
proof -
  have facts: "m_selectionType steady_engine = Tournament" "m_tournamentSize steady_engine = 1"
    "m_populationSize steady_engine = 2" "m_mutationProbability steady_engine = 0"
    "m_endCriterion steady_engine = BestScore" "m_run steady_engine" "\<not> m_logEnable steady_engine"
    "m_lastScores steady_engine = []" "m_generation steady_engine = 0"
    by (simp_all add: steady_engine_def setSelectionType_def setMainParameters_def
        GAtest_engine_def GeneticAlgorithm_def)
  show ?thesis
    by (simp add: steady_step steady_stop facts steady_fitness)
qed

section \<open>The claims\<close>

text \<open>
  C4. Under the \<^verbatim>\<open>BestScore\<close> criterion, on a store that is not empty, the check appends
  the best score to the buffer and answers "stop" exactly when the buffer then holds more
  than 10 entries and, the oldest entry removed, no entry of the buffer exceeds the new
  oldest entry; the buffer keeps the appended score, and loses its oldest entry once it
  holds more than 10. From a cleared buffer: no check among the first 10 answers "stop"; a
  strictly increasing sequence of best scores never stops the run; a constant sequence of
  11 or more best scores stops it at the 11th check.
\<close>

theorem BestScore_check:
  "(m_endCriterion ga = BestScore \<longrightarrow> m_population ga \<noteq> [] \<longrightarrow>
      (let pushed = m_lastScores ga @ [fst (last (m_population ga))];
           over = (10 < length pushed \<and> (\<forall>s\<in>set (tl pushed). \<not> hd (tl pushed) < s))
       in isEvolutionOver ga =
            Inr (over, ga\<lparr>m_lastScores := (if length pushed \<le> 10 then pushed else tl pushed)\<rparr>)))
   \<and> (m_endCriterion ga1 = BestScore \<longrightarrow> m_lastScores ga1 = [] \<longrightarrow>
        feed_checks ga1 stores1 = Some k \<longrightarrow> 10 \<le> k)
   \<and> (m_endCriterion ga2 = BestScore \<longrightarrow> m_lastScores ga2 = [] \<longrightarrow>
        (\<forall>store\<in>set stores2. store \<noteq> []) \<longrightarrow> sorted_wrt (<) (bests stores2) \<longrightarrow>
        feed_checks ga2 stores2 = None)
   \<and> (m_endCriterion ga3 = BestScore \<longrightarrow> m_lastScores ga3 = [] \<longrightarrow>
        (\<forall>store\<in>set stores3. store \<noteq> [] \<and> fst (last store) = c) \<longrightarrow> 11 \<le> length stores3 \<longrightarrow>
        feed_checks ga3 stores3 = Some 10)"
proof (intro conjI impI)
  assume "m_endCriterion ga = BestScore" "m_population ga \<noteq> []"
  then show "let pushed = m_lastScores ga @ [fst (last (m_population ga))];
           over = (10 < length pushed \<and> (\<forall>s\<in>set (tl pushed). \<not> hd (tl pushed) < s))
       in isEvolutionOver ga =
            Inr (over, ga\<lparr>m_lastScores := (if length pushed \<le> 10 then pushed else tl pushed)\<rparr>)"
    using isEvolutionOver_BestScore[of ga] by (simp add: Let_def)
next
  assume "m_endCriterion ga1 = BestScore" "m_lastScores ga1 = []" "feed_checks ga1 stores1 = Some k"
  then show "10 \<le> k" using feed_first10[of ga1 stores1 k] by simp
next
  assume "m_endCriterion ga2 = BestScore" "m_lastScores ga2 = []"
    "\<forall>store\<in>set stores2. store \<noteq> []" "sorted_wrt (<) (bests stores2)"
  then show "feed_checks ga2 stores2 = None" using feed_increasing[of ga2 stores2] by simp
next
  assume "m_endCriterion ga3 = BestScore" "m_lastScores ga3 = []"
    "\<forall>store\<in>set stores3. store \<noteq> [] \<and> fst (last store) = c" "11 \<le> length stores3"
  then show "feed_checks ga3 stores3 = Some 10"
    using feed_constant[of ga3 stores3 c 0] by simp
qed

theorem BestScore_check_witness:
  "isEvolutionOver (GAtest_engine\<lparr>m_population := [(1, [True])]\<rparr>) =
     Inr (False, GAtest_engine\<lparr>m_population := [(1, [True])], m_lastScores := [1]\<rparr>)
   \<and> feed_checks GAtest_engine (replicate 11 [(1, [True])]) = Some 10
   \<and> (10::nat) \<le> 10
   \<and> feed_checks GAtest_engine [[(1, [True])], [(2, [True, True])]] = None"
proof -
  have crit: "m_endCriterion GAtest_engine = BestScore" "m_lastScores GAtest_engine = []"
    by (simp_all add: GAtest_engine_def GeneticAlgorithm_def)
  note inst = BestScore_check[of "GAtest_engine\<lparr>m_population := [(1, [True])]\<rparr>"
      GAtest_engine "replicate 11 [(1, [True])]" 10
      GAtest_engine "[[(1, [True])], [(2, [True, True])]]"
      GAtest_engine "replicate 11 [(1, [True])]" 1]
  have a: "isEvolutionOver (GAtest_engine\<lparr>m_population := [(1, [True])]\<rparr>) =
     Inr (False, GAtest_engine\<lparr>m_population := [(1, [True])], m_lastScores := [1]\<rparr>)"
    using inst crit by (simp add: Let_def)
  have d: "feed_checks GAtest_engine (replicate 11 [(1, [True])]) = Some 10"
    using inst crit by (simp del: feed_checks.simps)
  have b: "(10::nat) \<le> 10" using inst crit d by blast
  have c: "feed_checks GAtest_engine [[(1, [True])], [(2, [True, True])]] = None"
    using inst crit by (simp add: bests_def del: feed_checks.simps)
  from a b c d show ?thesis by blast
qed

text \<open>
  C10. \<^verbatim>\<open>lastElement\<close>, and \<^verbatim>\<open>best\<close> through it, has undefined behaviour exactly when the
  store is empty: so has \<^verbatim>\<open>best\<close> on an engine as the constructor leaves it, and on the
  engine that a non-blocking \<^verbatim>\<open>run\<close> of such an engine returns, before the detached
  thread has scored anything. On an empty store \<^verbatim>\<open>chromosome(index)\<close> and
  \<^verbatim>\<open>chromosome(fitness)\<close> have undefined behaviour too, for every argument; their
  fallbacks (index out of range, no entry found) are \<^verbatim>\<open>lastElement().second\<close>, which is
  \<^verbatim>\<open>best\<close>.
\<close>

theorem best_undefined_on_empty_store:
  "(lastElement ga = Inl UndefinedBehaviour \<longleftrightarrow> m_population ga = [])
   \<and> (best ga = Inl UndefinedBehaviour \<longleftrightarrow> m_population ga = [])
   \<and> best (GeneticAlgorithm x y z :: 'g GeneticAlgorithm)
        = Inl UndefinedBehaviour
   \<and> (\<exists>ga' population rng'.
         run u False enableLogging outputStream
           (GeneticAlgorithm x y z :: 'g GeneticAlgorithm) rng
           = Some (Detached ga' population rng')
         \<and> best ga' = Inl UndefinedBehaviour)
   \<and> (m_population gaE = [] \<longrightarrow>
         chromosome_index gaE index = Inl UndefinedBehaviour
         \<and> chromosome_fitness gaE fitness = Inl UndefinedBehaviour)
   \<and> (length (m_population gaN) \<le> indexN \<longrightarrow> chromosome_index gaN indexN = best gaN)
   \<and> (chromosome_loop fitnessN 0 (m_population gaN) = None \<longrightarrow>
         chromosome_fitness gaN fitnessN = best gaN)"
proof -
  let ?G = "GeneticAlgorithm x y z :: 'g GeneticAlgorithm"
  let ?G2 = "?G\<lparr>m_logEnable := enableLogging, m_logStream := outputStream,
                 m_lastScores := [], m_run := True, m_generation := 0\<rparr>"
  have a: "lastElement ga = Inl UndefinedBehaviour \<longleftrightarrow> m_population ga = []"
    by (simp add: lastElement_def)
  have b: "best ga = Inl UndefinedBehaviour \<longleftrightarrow> m_population ga = []"
    by (simp add: best_def lastElement_def)
  have c: "best ?G = Inl UndefinedBehaviour"
    by (simp add: best_def lastElement_def GeneticAlgorithm_def)
  obtain population rng' where "run_create ?G2 u (m_populationSize ?G2) rng = Inr (population, rng')"
    using run_create_ok[of ?G2 u "m_populationSize ?G2" rng] by (auto simp: GeneticAlgorithm_def)
  then have "run u False enableLogging outputStream ?G rng = Some (Detached ?G2 population rng')"
    by (simp add: run_def Let_def GeneticAlgorithm_def)
  moreover have "best ?G2 = Inl UndefinedBehaviour"
    by (simp add: best_def lastElement_def GeneticAlgorithm_def)
  ultimately have d: "\<exists>ga' population rng'.
         run u False enableLogging outputStream ?G rng = Some (Detached ga' population rng')
         \<and> best ga' = Inl UndefinedBehaviour" by blast
  have e: "m_population gaE = [] \<longrightarrow>
         chromosome_index gaE index = Inl UndefinedBehaviour
         \<and> chromosome_fitness gaE fitness = Inl UndefinedBehaviour"
    by (simp add: chromosome_index_def chromosome_fitness_def lastElement_def)
  have f: "length (m_population gaN) \<le> indexN \<longrightarrow> chromosome_index gaN indexN = best gaN"
    by (simp add: chromosome_index_def best_def)
  have g: "chromosome_loop fitnessN 0 (m_population gaN) = None \<longrightarrow>
         chromosome_fitness gaN fitnessN = best gaN"
    by (simp add: chromosome_fitness_def best_def)
  from a b c d e f g show ?thesis by blast
qed

theorem best_undefined_on_empty_store_witness:
  "chromosome_index GAtest_engine 0 = Inl UndefinedBehaviour
   \<and> chromosome_fitness GAtest_engine 1 = Inl UndefinedBehaviour
   \<and> best GAtest_engine = Inl UndefinedBehaviour
   \<and> chromosome_index (GAtest_engine\<lparr>m_population := [(0, [False]), (1, [True])]\<rparr>) 2 = Inr [True]
   \<and> chromosome_fitness (GAtest_engine\<lparr>m_population := [(0, [False]), (1, [True])]\<rparr>) 2 = Inr [True]"
proof -
  note inst = best_undefined_on_empty_store[where gaE = GAtest_engine and index = 0
      and fitness = 1 and indexN = 2 and fitnessN = 2
      and gaN = "GAtest_engine\<lparr>m_population := [(0, [False]), (1, [True])]\<rparr>"
      and ga = GAtest_engine]
  have e: "m_population GAtest_engine = []"
    by (simp add: GAtest_engine_def GeneticAlgorithm_def)
  have b: "best (GAtest_engine\<lparr>m_population := [(0, [False]), (1, [True])]\<rparr>) = Inr [True]"
    by (simp add: best_def lastElement_def)
  have l: "chromosome_loop 2 0 (m_population (GAtest_engine\<lparr>m_population := [(0, [False]), (1, [True])]\<rparr>)) = None"
    by simp
  have n: "length (m_population (GAtest_engine\<lparr>m_population := [(0, [False]), (1, [True])]\<rparr>)) \<le> 2"
    by simp
  from inst e b l n show ?thesis by metis
qed


text \<open>
  C5. Under the \<^verbatim>\<open>MaxScore\<close> criterion, on the store freshly computed from a working
  population that is not empty, the check answers "stop" exactly when the highest score of
  the population is at least \<^verbatim>\<open>_maxEndScore\<close>, and changes nothing. A running \<^verbatim>\<open>evolve\<close>
  returns at such a generation, with that store; at a generation whose highest score is
  below the threshold it does not return but makes the next population and goes on with
  the next generation. So the run stops at the first generation whose best score reaches
  the threshold, and at no earlier one.
\<close>

theorem MaxScore_check:
  "m_endCriterion ga = MaxScore \<longrightarrow> population \<noteq> [] \<longrightarrow>
     (let ga1 = ga\<lparr>m_population := evolve_fitness u population\<rparr>;
          over = (m_maxEndScore ga \<le> Max (score u ` set population))
      in isEvolutionOver ga1 = Inr (over, ga1)
         \<and> (m_run ga \<longrightarrow>
              evolve u ga population rng =
                (if over then Some (Inr (ga1\<lparr>m_run := False, m_logEnable := False\<rparr>, rng))
                 else (case evolve_make ga1 u rng of
                         None \<Rightarrow> None
                       | Some (Inl e) \<Rightarrow> Some (Inl (e, ga1))
                       | Some (Inr (population', rng')) \<Rightarrow>
                           evolve u (ga1\<lparr>m_generation := m_generation ga + 1\<rparr>)
                             population' rng'))))"
proof (intro impI)
  assume crit: "m_endCriterion ga = MaxScore" and ne: "population \<noteq> []"
  let ?ga1 = "ga\<lparr>m_population := evolve_fitness u population\<rparr>"
  obtain c where le: "lastElement ?ga1 = Inr (Max (score u ` set population), c)"
    using best_of_fitness[OF ne, where ga = ga and u = u] by blast
  have over: "isEvolutionOver ?ga1 = Inr (m_maxEndScore ga \<le> Max (score u ` set population), ?ga1)"
    using crit le by (simp add: isEvolutionOver_def)
  show "let ga1 = ga\<lparr>m_population := evolve_fitness u population\<rparr>;
          over = (m_maxEndScore ga \<le> Max (score u ` set population))
      in isEvolutionOver ga1 = Inr (over, ga1)
         \<and> (m_run ga \<longrightarrow>
              evolve u ga population rng =
                (if over then Some (Inr (ga1\<lparr>m_run := False, m_logEnable := False\<rparr>, rng))
                 else (case evolve_make ga1 u rng of
                         None \<Rightarrow> None
                       | Some (Inl e) \<Rightarrow> Some (Inl (e, ga1))
                       | Some (Inr (population', rng')) \<Rightarrow>
                           evolve u (ga1\<lparr>m_generation := m_generation ga + 1\<rparr>)
                             population' rng')))"
    using over evolve_MaxScore_step[OF crit ne, where u = u and rng = rng] by (simp add: Let_def)
qed

theorem MaxScore_check_witness:
  "isEvolutionOver (example_engine\<lparr>m_maxEndScore := 1, m_population := [(0, [False]), (1, [True])]\<rparr>)
     = Inr (True, example_engine\<lparr>m_maxEndScore := 1, m_population := [(0, [False]), (1, [True])]\<rparr>)
   \<and> evolve GAtest (example_engine\<lparr>m_maxEndScore := 1\<rparr>) [[True], [False]] example_rng
     = Some (Inr (example_engine\<lparr>m_maxEndScore := 1, m_population := [(0, [False]), (1, [True])],
                    m_run := False, m_logEnable := False\<rparr>, example_rng))"
proof -
  have f: "evolve_fitness GAtest [[True], [False]] = [(0, [False]), (1, [True])]"
    by (simp add: evolve_fitness_def GAtest_def GAtest_score_def)
  have m: "Max (score GAtest ` set [[True], [False]]) = 1"
    by (simp add: GAtest_def GAtest_score_def)
  have h: "m_endCriterion (example_engine\<lparr>m_maxEndScore := 1\<rparr>) = MaxScore"
    "m_run (example_engine\<lparr>m_maxEndScore := 1\<rparr>)"
    "m_maxEndScore (example_engine\<lparr>m_maxEndScore := 1\<rparr>) = 1" "[[True], [False]] \<noteq> []"
    by (simp_all add: example_defs)
  show ?thesis
    using MaxScore_check[where ga = "example_engine\<lparr>m_maxEndScore := 1\<rparr>"
        and population = "[[True], [False]]" and u = GAtest and rng = example_rng]
    unfolding Let_def f m using h by simp
qed


text \<open>
  C1, as amended. After the fitness of a generation is computed, the best score recorded in
  the store is the maximum of the scores of the chromosomes of that generation's working
  population, and \<^verbatim>\<open>best\<close> is a chromosome of that population with that score. (The
  engine keeps no chromosome from one generation to the next, so this maximum can go
  down from one generation to the next.)
\<close>

theorem best_is_generation_maximum:
  "population \<noteq> [] \<longrightarrow>
     (\<exists>c. lastElement (ga\<lparr>m_population := evolve_fitness u population\<rparr>)
             = Inr (Max (score u ` set population), c)
           \<and> c \<in> set population \<and> score u c = Max (score u ` set population))"
  using best_of_fitness[where population = population and ga = ga and u = u] by blast

theorem best_is_generation_maximum_witness:
  "\<exists>c. lastElement (example_engine\<lparr>m_population := evolve_fitness GAtest [[True], [False]]\<rparr>)
          = Inr (1, c) \<and> c \<in> set [[True], [False]] \<and> score GAtest c = 1"
proof -
  have m: "Max (score GAtest ` set [[True], [False]]) = 1"
    by (simp add: GAtest_def GAtest_score_def)
  show ?thesis
    using best_is_generation_maximum[where population = "[[True], [False]]"
        and ga = example_engine and u = GAtest]
    unfolding m by simp
qed


text \<open>
  C1 as stated fails. \<open>steady_engine\<close> runs under \<^verbatim>\<open>BestScore\<close> with tournaments of size 1,
  and on \<open>cycle_rng\<close> both tournaments of every generation pick the chromosome at index 0,
  the worst one. From the population \<open>[[True], [False]]\<close> the store of generation 0 records
  the best score 1; the check answers "go on"; selection, crossover and mutation make the
  population \<open>[[False], [False]]\<close>; the store of generation 1 records the best score 0.
  Every later generation completes in the same way, and the run returns at generation 10
  with the best score 0.
\<close>

theorem best_score_decreases:
  "lastElement (steady_engine\<lparr>m_population := evolve_fitness GAtest [[True], [False]]\<rparr>)
     = Inr (1, [True])
   \<and> isEvolutionOver (steady_engine\<lparr>m_population := evolve_fitness GAtest [[True], [False]]\<rparr>)
     = Inr (False, steady_engine\<lparr>m_population := evolve_fitness GAtest [[True], [False]],
                                  m_lastScores := [1]\<rparr>)
   \<and> evolve_make (steady_engine\<lparr>m_population := evolve_fitness GAtest [[True], [False]],
                                  m_lastScores := [1]\<rparr>) GAtest cycle_rng
     = Some (Inr ([[False], [False]], cycle_rng))
   \<and> lastElement (steady_engine\<lparr>m_population := evolve_fitness GAtest [[False], [False]],
                                  m_lastScores := [1], m_generation := 1\<rparr>)
     = Inr (0, [False])
   \<and> evolve GAtest steady_engine [[True], [False]] cycle_rng
     = Some (Inr (steady_engine\<lparr>m_population := [(0, [False]), (0, [False])],
                      m_lastScores := [0, 0, 0, 0, 0, 0, 0, 0, 0, 0],
                      m_generation := 10,
                      m_run := False, m_logEnable := False\<rparr>, cycle_rng))"
proof -
  have facts: "m_selectionType steady_engine = Tournament" "m_tournamentSize steady_engine = 1"
    "m_populationSize steady_engine = 2" "m_mutationProbability steady_engine = 0"
    "m_endCriterion steady_engine = BestScore" "m_lastScores steady_engine = []"
    by (simp_all add: steady_engine_def setSelectionType_def setMainParameters_def
        GAtest_engine_def GeneticAlgorithm_def)
  have a: "lastElement (steady_engine\<lparr>m_population := evolve_fitness GAtest [[True], [False]]\<rparr>)
     = Inr (1, [True])"
    by (simp add: steady_fitness lastElement_def)
  have b: "isEvolutionOver (steady_engine\<lparr>m_population := evolve_fitness GAtest [[True], [False]]\<rparr>)
     = Inr (False, steady_engine\<lparr>m_population := evolve_fitness GAtest [[True], [False]],
                                  m_lastScores := [1]\<rparr>)"
    by (simp add: steady_fitness isEvolutionOver_def lastElement_def Let_def facts)
  have c: "evolve_make (steady_engine\<lparr>m_population := evolve_fitness GAtest [[True], [False]],
                                  m_lastScores := [1]\<rparr>) GAtest cycle_rng
     = Some (Inr ([[False], [False]], cycle_rng))"
    by (rule steady_generation[where x = 1 and c = "[True]"]) (simp_all add: facts steady_fitness)
  have d: "lastElement (steady_engine\<lparr>m_population := evolve_fitness GAtest [[False], [False]],
                                  m_lastScores := [1], m_generation := 1\<rparr>)
     = Inr (0, [False])"
    by (simp add: steady_fitness lastElement_def)
  from a b c d steady_run show ?thesis by simp
qed

text \<open>
  C7. On a chromosome of length at least 1, \<^verbatim>\<open>mutate\<close> never faults and keeps the length.
  It draws \<open>x\<close> in \<open>[0, 1]\<close> once; when \<open>x\<close> exceeds the mutation probability the
  chromosome is unchanged; otherwise it draws a start index \<open>b\<close> in \<open>[0, length - 1]\<close> and
  an end index \<open>e\<close> in \<open>[b, length]\<close> and the result is the chromosome with exactly the
  genes at the indices of \<open>[b, e)\<close> replaced by \<open>e - b\<close> genes freshly generated by
  \<^verbatim>\<open>randomGene\<close>, in order; every gene outside \<open>[b, e)\<close> is unchanged, and with \<open>b = e\<close>
  nothing is replaced. (That the draws are uniform is a property of the distributions of
  the standard library; the embedding states their ranges.)
\<close>

theorem mutate_replaces_a_range:
  "1 \<le> length chromosome \<longrightarrow>
     (\<exists>x rng1 chromosome' rng'.
        get_double 0 1 rng = Inr (x, rng1) \<and> 0 \<le> x \<and> x \<le> 1
        \<and> mutate ga u chromosome rng = Inr (chromosome', rng')
        \<and> length chromosome' = length chromosome
        \<and> (\<not> x \<le> m_mutationProbability ga \<longrightarrow> chromosome' = chromosome \<and> rng' = rng1)
        \<and> (x \<le> m_mutationProbability ga \<longrightarrow>
             (\<exists>b e rng2 rng3 fresh.
                get_int 0 (int (length chromosome) - 1) rng1 = Inr (int b, rng2)
                \<and> get_unsigned b (length chromosome) rng2 = Inr (e, rng3)
                \<and> b \<le> length chromosome - 1 \<and> b \<le> e \<and> e \<le> length chromosome
                \<and> generate u (e - b) rng3 = (fresh, rng')
                \<and> length fresh = e - b
                \<and> chromosome' = take b chromosome @ fresh @ drop e chromosome
                \<and> (\<forall>i<length chromosome. i < b \<or> e \<le> i \<longrightarrow> chromosome' ! i = chromosome ! i)
                \<and> (\<forall>i. b \<le> i \<and> i < e \<longrightarrow> chromosome' ! i = fresh ! (i - b))
                \<and> (b = e \<longrightarrow> chromosome' = chromosome))))"
proof
  assume len: "1 \<le> length chromosome"
  obtain x rng1 where x: "get_double 0 1 rng = Inr (x, rng1)" "0 \<le> x" "x \<le> 1"
    using get_double_unit[of rng] by blast
  show "\<exists>x rng1 chromosome' rng'.
        get_double 0 1 rng = Inr (x, rng1) \<and> 0 \<le> x \<and> x \<le> 1
        \<and> mutate ga u chromosome rng = Inr (chromosome', rng')
        \<and> length chromosome' = length chromosome
        \<and> (\<not> x \<le> m_mutationProbability ga \<longrightarrow> chromosome' = chromosome \<and> rng' = rng1)
        \<and> (x \<le> m_mutationProbability ga \<longrightarrow>
             (\<exists>b e rng2 rng3 fresh.
                get_int 0 (int (length chromosome) - 1) rng1 = Inr (int b, rng2)
                \<and> get_unsigned b (length chromosome) rng2 = Inr (e, rng3)
                \<and> b \<le> length chromosome - 1 \<and> b \<le> e \<and> e \<le> length chromosome
                \<and> generate u (e - b) rng3 = (fresh, rng')
                \<and> length fresh = e - b
                \<and> chromosome' = take b chromosome @ fresh @ drop e chromosome
                \<and> (\<forall>i<length chromosome. i < b \<or> e \<le> i \<longrightarrow> chromosome' ! i = chromosome ! i)
                \<and> (\<forall>i. b \<le> i \<and> i < e \<longrightarrow> chromosome' ! i = fresh ! (i - b))
                \<and> (b = e \<longrightarrow> chromosome' = chromosome)))"
  proof (cases "x \<le> m_mutationProbability ga")
    case False
    then have "mutate ga u chromosome rng = Inr (chromosome, rng1)"
      using x by (simp add: mutate_def)
    with x False show ?thesis by auto
  next
    case True
    obtain bi rng2 where bi: "get_int 0 (int (length chromosome) - 1) rng1 = Inr (bi, rng2)"
        "0 \<le> bi" "bi \<le> int (length chromosome) - 1"
    proof -
      have "0 \<le> int (length chromosome) - 1" using len by linarith
      from get_int_range[OF this, of rng1] show ?thesis using that by blast
    qed
    define b where "b = nat bi"
    have b: "int b = bi" "b \<le> length chromosome - 1" "b \<le> length chromosome"
      using bi len by (auto simp: b_def)
    obtain e rng3 where e: "get_unsigned b (length chromosome) rng2 = Inr (e, rng3)"
        "b \<le> e" "e \<le> length chromosome"
      using get_unsigned_range[OF b(3), of rng2] by blast
    obtain fresh rng' where fresh: "generate u (e - b) rng3 = (fresh, rng')"
      by (cases "generate u (e - b) rng3")
    have lf: "length fresh = e - b" using generate_length[of u "e - b" rng3] fresh by simp
    define c' where "c' = take b chromosome @ fresh @ drop e chromosome"
    have m: "mutate ga u chromosome rng = Inr (c', rng')"
      using x True bi e fresh mutate_loop_eq[OF e(2) e(3), of u rng3]
      by (simp add: mutate_def b_def c'_def)
    have lc: "length c' = length chromosome" using lf e b by (simp add: c'_def)
    have outside: "\<forall>i<length chromosome. i < b \<or> e \<le> i \<longrightarrow> c' ! i = chromosome ! i"
    proof (intro allI impI)
      fix i assume i: "i < length chromosome" "i < b \<or> e \<le> i"
      show "c' ! i = chromosome ! i"
      proof (cases "i < b")
        case True
        then show ?thesis using b by (simp add: c'_def nth_append)
      next
        case False
        with i have ei: "e \<le> i" by simp
        have lt: "length (take b chromosome) = b" using b by simp
        have nb: "\<not> i < b" using ei e by linarith
        have ne: "\<not> i - b < e - b" using ei e by linarith
        have ie: "i - b - (e - b) = i - e" using ei e by linarith
        have "c' ! i = (fresh @ drop e chromosome) ! (i - b)"
          using nb lt by (simp add: c'_def nth_append)
        also have "\<dots> = drop e chromosome ! (i - e)"
          using ne lf ie by (simp add: nth_append)
        also have "\<dots> = chromosome ! i" using ei i e by simp
        finally show ?thesis .
      qed
    qed
    have inside: "\<forall>i. b \<le> i \<and> i < e \<longrightarrow> c' ! i = fresh ! (i - b)"
    proof (intro allI impI)
      fix i assume i: "b \<le> i \<and> i < e"
      have lt: "length (take b chromosome) = b" using b by simp
      have nb: "\<not> i < b" using i by linarith
      have il: "i - b < e - b" using i by linarith
      have "c' ! i = (fresh @ drop e chromosome) ! (i - b)"
        using nb lt by (simp add: c'_def nth_append)
      also have "\<dots> = fresh ! (i - b)" using il lf by (simp add: nth_append)
      finally show "c' ! i = fresh ! (i - b)" .
    qed
    have same: "b = e \<longrightarrow> c' = chromosome" using lf by (auto simp: c'_def)
    have bi': "get_int 0 (int (length chromosome) - 1) rng1 = Inr (int b, rng2)"
      using bi(1) b(1) by simp
    have cd: "c' = take b chromosome @ fresh @ drop e chromosome" by (simp add: c'_def)
    have inner: "\<exists>b e rng2 rng3 fresh.
                get_int 0 (int (length chromosome) - 1) rng1 = Inr (int b, rng2)
                \<and> get_unsigned b (length chromosome) rng2 = Inr (e, rng3)
                \<and> b \<le> length chromosome - 1 \<and> b \<le> e \<and> e \<le> length chromosome
                \<and> generate u (e - b) rng3 = (fresh, rng')
                \<and> length fresh = e - b
                \<and> c' = take b chromosome @ fresh @ drop e chromosome
                \<and> (\<forall>i<length chromosome. i < b \<or> e \<le> i \<longrightarrow> c' ! i = chromosome ! i)
                \<and> (\<forall>i. b \<le> i \<and> i < e \<longrightarrow> c' ! i = fresh ! (i - b))
                \<and> (b = e \<longrightarrow> c' = chromosome)"
      using bi' e(1) b(2) e(2) e(3) fresh lf cd outside inside same by blast
    from x m lc True inner show ?thesis by blast
  qed
qed


theorem mutate_replaces_a_range_witness:
  "mutate (example_engine\<lparr>m_mutationProbability := 1\<rparr>) GAtest [False, False, False]
      \<lparr>intOutcomes = [1, 1, 1] @- sconst 0, realOutcomes = sconst (1 / 2)\<rparr>
     = Inr ([False, True, False], \<lparr>intOutcomes = sconst 0, realOutcomes = sconst (1 / 2)\<rparr>)"
proof -
  have len: "1 \<le> length [False, False, False]" by simp
  from mutate_replaces_a_range[where chromosome = "[False, False, False]"
      and ga = "example_engine\<lparr>m_mutationProbability := 1\<rparr>" and u = GAtest
      and rng = "\<lparr>intOutcomes = [1, 1, 1] @- sconst 0, realOutcomes = sconst (1 / 2)\<rparr>"] len
  obtain c' rng' where "mutate (example_engine\<lparr>m_mutationProbability := 1\<rparr>) GAtest [False, False, False]
      \<lparr>intOutcomes = [1, 1, 1] @- sconst 0, realOutcomes = sconst (1 / 2)\<rparr> = Inr (c', rng')"
    "length c' = length [False, False, False]"
    by blast
  moreover have "mutate (example_engine\<lparr>m_mutationProbability := 1\<rparr>) GAtest [False, False, False]
      \<lparr>intOutcomes = [1, 1, 1] @- sconst 0, realOutcomes = sconst (1 / 2)\<rparr>
     = Inr ([False, True, False], \<lparr>intOutcomes = sconst 0, realOutcomes = sconst (1 / 2)\<rparr>)"
    by (simp add: mutate_def mutate_loop.simps get_double_def get_int_def get_unsigned_def
        GAtest_def GAtest_randomGene_def)
  ultimately show ?thesis by simp
qed




text \<open>
  C2, as amended. The working population that the filling loop hands to mutation, and
  the mutated population that the next generation scores, hold at least
  \<^verbatim>\<open>_populationSize\<close> chromosomes and an even number of them: offspring are added two at
  a time until the size is reached. With \<^verbatim>\<open>RouletteWheel\<close> or \<^verbatim>\<open>Tournament\<close> selection
  the number is \<^verbatim>\<open>_populationSize\<close> when that is even and \<^verbatim>\<open>_populationSize + 1\<close> when
  it is odd.
\<close>

theorem working_population_size:
  "(evolve_fill ga [] rng = Some (Inr (filled, rng1)) \<longrightarrow>
      m_populationSize ga \<le> length filled \<and> even (length filled)
      \<and> (m_selectionType ga = RouletteWheel \<or> m_selectionType ga = Tournament \<longrightarrow>
           length filled = m_populationSize ga + m_populationSize ga mod 2))
   \<and> (evolve_make ga u rng = Some (Inr (population, rng')) \<longrightarrow>
      m_populationSize ga \<le> length population \<and> even (length population)
      \<and> (m_selectionType ga = RouletteWheel \<or> m_selectionType ga = Tournament \<longrightarrow>
           length population = m_populationSize ga + m_populationSize ga mod 2))"
proof -
  have fill: "m_populationSize ga \<le> length p \<and> even (length p)
      \<and> (m_selectionType ga = RouletteWheel \<or> m_selectionType ga = Tournament \<longrightarrow>
           length p = m_populationSize ga + m_populationSize ga mod 2)"
    if "evolve_fill ga [] rng = Some (Inr (p, r))" for p r
    using evolve_fill_inv[OF that] by simp
  have make: "m_populationSize ga \<le> length population \<and> even (length population)
      \<and> (m_selectionType ga = RouletteWheel \<or> m_selectionType ga = Tournament \<longrightarrow>
           length population = m_populationSize ga + m_populationSize ga mod 2)"
    if mk: "evolve_make ga u rng = Some (Inr (population, rng'))"
  proof -
    from mk obtain p r where f: "evolve_fill ga [] rng = Some (Inr (p, r))"
      and m: "evolve_mutation ga u p r = Inr (population, rng')"
      by (auto simp: evolve_make_def split: option.splits sum.splits prod.splits)
    from evolve_mutation_length[OF m] have "length population = length p" by simp
    with fill[OF f] show ?thesis by simp
  qed
  from fill make show ?thesis by blast
qed

theorem working_population_size_witness:
  "evolve_make (example_engine\<lparr>m_population := [(0, [False]), (1, [True])]\<rparr>) GAtest example_rng
     = Some (Inr ([[False], [False]], example_rng'))
   \<and> m_populationSize (example_engine\<lparr>m_population := [(0, [False]), (1, [True])]\<rparr>)
       \<le> length [[False], [False]]
   \<and> length [[False], [False]]
       = m_populationSize (example_engine\<lparr>m_population := [(0, [False]), (1, [True])]\<rparr>)
         + m_populationSize (example_engine\<lparr>m_population := [(0, [False]), (1, [True])]\<rparr>) mod 2"
proof -
  have t: "m_selectionType (example_engine\<lparr>m_population := [(0, [False]), (1, [True])]\<rparr>) = Tournament"
    by (simp add: example_defs)
  from working_population_size[where ga = "example_engine\<lparr>m_population := [(0, [False]), (1, [True])]\<rparr>"
      and u = GAtest and rng = example_rng and population = "[[False], [False]]"
      and rng' = example_rng'] example_generation t
  show ?thesis by blast
qed


text \<open>
  C2 as stated fails: with the population size 3 the new working population holds 4
  chromosomes.
\<close>

theorem working_population_exceeds_size:
  "m_populationSize odd_engine = 3
   \<and> evolve_make odd_engine GAtest odd_rng
     = Some (Inr ([[False], [False], [False], [False]], example_rng'))"
  by (simp add: evaluation_defs example_defs odd_engine_def odd_rng_def)

text \<open>
  C3, as amended. The engine has no \<^verbatim>\<open>NeverStop\<close> criterion: \<^verbatim>\<open>enum class EndingCriterion\<close>
  names \<^verbatim>\<open>MaxScore\<close> and \<^verbatim>\<open>BestScore\<close> only. When the criterion of the engine is neither,
  the check raises "Unknown ending criterion", and a running \<^verbatim>\<open>evolve\<close> ends with that
  error at its first generation instead of looping. The loop runs only while the run flag
  is set: \<^verbatim>\<open>stop\<close> clears the flag, and \<^verbatim>\<open>evolve\<close> on a stopped engine returns without
  computing a generation.
\<close>

theorem unnamed_criterion_raises:
  "(m_endCriterion ga \<noteq> MaxScore \<longrightarrow> m_endCriterion ga \<noteq> BestScore \<longrightarrow>
      isEvolutionOver ga = Inl UnknownEndingCriterion
      \<and> (m_run ga \<longrightarrow> (m_logEnable ga \<longrightarrow> population \<noteq> []) \<longrightarrow>
           evolve u ga population rng
             = Some (Inl (UnknownEndingCriterion, ga\<lparr>m_population := evolve_fitness u population\<rparr>))))
   \<and> m_run (stop gaS) = False
   \<and> evolve u (stop gaS) population rng = Some (Inr (stop gaS, rng))"
proof (intro conjI impI)
  assume c: "m_endCriterion ga \<noteq> MaxScore" "m_endCriterion ga \<noteq> BestScore"
  show "isEvolutionOver ga = Inl UnknownEndingCriterion"
    using c by (simp add: isEvolutionOver_def)
  assume r: "m_run ga" and l: "m_logEnable ga \<longrightarrow> population \<noteq> []"
  have "isEvolutionOver (ga\<lparr>m_population := evolve_fitness u population\<rparr>) = Inl UnknownEndingCriterion"
    using c by (simp add: isEvolutionOver_def)
  then show "evolve u ga population rng
             = Some (Inl (UnknownEndingCriterion, ga\<lparr>m_population := evolve_fitness u population\<rparr>))"
    using r l by (subst evolve.simps) (simp add: Let_def evolve_fitness_Nil)
next
  show "m_run (stop gaS) = False" by (simp add: stop_def)
next
  show "evolve u (stop gaS) population rng = Some (Inr (stop gaS, rng))"
    by (subst evolve.simps) (simp add: stop_def evolve_end_def)
qed

theorem unnamed_criterion_raises_witness:
  "isEvolutionOver unnamed_engine = Inl UnknownEndingCriterion
   \<and> evolve GAtest unnamed_engine [[True], [False]] example_rng
       = Some (Inl (UnknownEndingCriterion,
                    unnamed_engine\<lparr>m_population := [(0, [False]), (1, [True])]\<rparr>))"
proof -
  have f: "evolve_fitness GAtest [[True], [False]] = [(0, [False]), (1, [True])]"
    by (simp add: evolve_fitness_def GAtest_def GAtest_score_def)
  have h: "m_endCriterion unnamed_engine \<noteq> MaxScore" "m_endCriterion unnamed_engine \<noteq> BestScore"
    "m_run unnamed_engine" "m_logEnable unnamed_engine \<longrightarrow> [[True], [False]] \<noteq> []"
    by (simp_all add: unnamed_engine_def example_defs)
  from unnamed_criterion_raises[where ga = unnamed_engine and u = GAtest
      and population = "[[True], [False]]" and rng = example_rng] h
  show ?thesis unfolding f by blast
qed


text \<open>
  C3 as stated fails: on the example engine with a criterion that is neither
  \<^verbatim>\<open>MaxScore\<close> nor \<^verbatim>\<open>BestScore\<close>, the check does not answer "go on" but raises, and
  \<^verbatim>\<open>evolve\<close> ends with the error at generation 0: it does not run indefinitely.
\<close>

theorem no_NeverStop_criterion:
  "isEvolutionOver (unnamed_engine\<lparr>m_population := [(0, [False]), (1, [True])]\<rparr>)
     = Inl UnknownEndingCriterion
   \<and> evolve GAtest unnamed_engine [[True], [False]] example_rng
       = Some (Inl (UnknownEndingCriterion,
                    unnamed_engine\<lparr>m_population := [(0, [False]), (1, [True])]\<rparr>))
   \<and> evolve GAtest unnamed_engine [[True], [False]] example_rng \<noteq> None"
proof -
  have f: "evolve_fitness GAtest [[True], [False]] = [(0, [False]), (1, [True])]"
    by (simp add: evolve_fitness_def GAtest_def GAtest_score_def)
  have a: "isEvolutionOver (unnamed_engine\<lparr>m_population := [(0, [False]), (1, [True])]\<rparr>)
     = Inl UnknownEndingCriterion"
    by (simp add: isEvolutionOver_def unnamed_engine_def)
  have b: "evolve GAtest unnamed_engine [[True], [False]] example_rng
       = Some (Inl (UnknownEndingCriterion,
                    unnamed_engine\<lparr>m_population := [(0, [False]), (1, [True])]\<rparr>))"
    apply (subst evolve.simps)
    apply (simp add: f a Let_def)
    apply (simp add: unnamed_engine_def example_defs)
    done
  from a b show ?thesis by simp
qed


text \<open>
  C8, as amended. \<^verbatim>\<open>run\<close> raises "The tournament size cannot be greater than the
  population size" if and only if the selection type is \<^verbatim>\<open>Tournament\<close> and the tournament
  size exceeds the population size. It raises it before anything else than the logging
  settings is touched: whatever the mode, the user's functions, the chromosome size bounds
  and the random outcomes are, the outcome is that error (no population is seeded, no
  thread is detached), and the engine is unchanged except for \<^verbatim>\<open>_logEnable\<close> and
  \<^verbatim>\<open>_logStream\<close>, which hold the arguments of the call.
\<close>

theorem run_tournament_check:
  "(m_selectionType ga = Tournament \<and> m_populationSize ga < m_tournamentSize ga \<longrightarrow>
      run u blocking enableLogging outputStream ga rng
        = Some (Threw TournamentTooLarge
                  (ga\<lparr>m_logEnable := enableLogging, m_logStream := outputStream\<rparr>)))
   \<and> (\<not> (m_selectionType ga = Tournament \<and> m_populationSize ga < m_tournamentSize ga) \<longrightarrow>
      run u blocking enableLogging outputStream ga rng \<noteq> Some (Threw TournamentTooLarge ga'))"
proof (intro conjI impI)
  assume "m_selectionType ga = Tournament \<and> m_populationSize ga < m_tournamentSize ga"
  then show "run u blocking enableLogging outputStream ga rng
        = Some (Threw TournamentTooLarge
                  (ga\<lparr>m_logEnable := enableLogging, m_logStream := outputStream\<rparr>))"
    by (simp add: run_def Let_def)
next
  assume ok: "\<not> (m_selectionType ga = Tournament \<and> m_populationSize ga < m_tournamentSize ga)"
  let ?ga2 = "ga\<lparr>m_logEnable := enableLogging, m_logStream := outputStream,
                  m_lastScores := [], m_run := True, m_generation := 0\<rparr>"
  show "run u blocking enableLogging outputStream ga rng \<noteq> Some (Threw TournamentTooLarge ga')"
  proof
    assume thr: "run u blocking enableLogging outputStream ga rng = Some (Threw TournamentTooLarge ga')"
    show False
    proof (cases "run_create ?ga2 u (m_populationSize ga) rng")
      case (Inl e)
      with thr ok run_create_err[OF Inl] show False by (auto simp: run_def Let_def)
    next
      case (Inr p)
      obtain population rng1 where p: "p = (population, rng1)" by (cases p)
      show False
      proof (cases blocking)
        case False
        with thr ok Inr p show False by (auto simp: run_def Let_def)
      next
        case True
        with thr ok Inr p obtain r where ev: "evolve u ?ga2 population rng1 = Some r"
          and r: "r = Inl (TournamentTooLarge, ga')"
          by (auto simp: run_def Let_def split: option.splits sum.splits prod.splits)
        from evolve_err[OF ev] r show False by blast
      qed
    qed
  qed
qed

theorem run_tournament_check_witness:
  "run GAtest False True 1 oversized_engine example_rng
     = Some (Threw TournamentTooLarge (oversized_engine\<lparr>m_logEnable := True, m_logStream := 1\<rparr>))
   \<and> run GAtest False True 1 GAtest_engine example_rng
     \<noteq> Some (Threw TournamentTooLarge (GAtest_engine\<lparr>m_logEnable := True, m_logStream := 1\<rparr>))"
proof -
  have a: "m_selectionType oversized_engine = Tournament
      \<and> m_populationSize oversized_engine < m_tournamentSize oversized_engine"
    by (simp add: oversized_engine_def setSelectionType_def GAtest_engine_def GeneticAlgorithm_def)
  have b: "\<not> (m_selectionType GAtest_engine = Tournament
      \<and> m_populationSize GAtest_engine < m_tournamentSize GAtest_engine)"
    by (simp add: GAtest_engine_def GeneticAlgorithm_def)
  from run_tournament_check[where ga = oversized_engine and u = GAtest and blocking = False
      and enableLogging = True and outputStream = 1 and rng = example_rng] a
  have 1: "run GAtest False True 1 oversized_engine example_rng
     = Some (Threw TournamentTooLarge (oversized_engine\<lparr>m_logEnable := True, m_logStream := 1\<rparr>))"
    by blast
  from run_tournament_check[where ga = GAtest_engine and u = GAtest and blocking = False
      and enableLogging = True and outputStream = 1 and rng = example_rng
      and ga' = "GAtest_engine\<lparr>m_logEnable := True, m_logStream := 1\<rparr>"] b
  have 2: "run GAtest False True 1 GAtest_engine example_rng
     \<noteq> Some (Threw TournamentTooLarge (GAtest_engine\<lparr>m_logEnable := True, m_logStream := 1\<rparr>))"
    by blast
  from 1 2 show ?thesis by blast
qed


text \<open>
  C8 as stated fails: the failed \<^verbatim>\<open>run\<close> does not leave the engine unchanged. Logging was
  disabled on \<^verbatim>\<open>std::cout\<close> before the call; after it logging is enabled on the stream
  of the call.
\<close>

theorem run_error_changes_logging:
  "run GAtest False True 1 oversized_engine example_rng
     = Some (Threw TournamentTooLarge (oversized_engine\<lparr>m_logEnable := True, m_logStream := 1\<rparr>))
   \<and> m_logEnable oversized_engine = False
   \<and> m_logEnable (oversized_engine\<lparr>m_logEnable := True, m_logStream := 1\<rparr>) = True
   \<and> m_logStream oversized_engine = 0
   \<and> m_logStream (oversized_engine\<lparr>m_logEnable := True, m_logStream := 1\<rparr>) = 1"
  by (simp add: run_def Let_def oversized_engine_def setSelectionType_def GAtest_engine_def
      GeneticAlgorithm_def)

text \<open>
  C9. The claim promises a count \<open>k\<close> in \<open>[1, populationSize / 10]\<close> with a minimum of 1.
  The code draws \<^verbatim>\<open>Random::get(1, _population.size()/10)\<close>: on every store of fewer than
  10 entries, whatever its scores, the upper bound is 0, the range \<open>[1, 0]\<close> is not a range
  of \<^verbatim>\<open>std::uniform_int_distribution\<close>, and the selection has undefined behaviour before
  it computes anything.
\<close>

theorem StochasticUniversal_small_store:
  "m_selectionType ga = StochasticUniversal \<longrightarrow> length (m_population ga) < 10 \<longrightarrow>
     get_int 1 (int (length (m_population ga) div 10)) rng = Inl UndefinedBehaviour
     \<and> select ga rng = Some (Inl UndefinedBehaviour)"
  by (simp add: select_def get_int_def)

theorem StochasticUniversal_small_store_witness:
  "totalScore (sus_engine\<lparr>m_population := [(1, [0]), (1, [1]), (1, [2]), (1, [3]), (1, [4])]\<rparr>) = 5
   \<and> select (sus_engine\<lparr>m_population := [(1, [0]), (1, [1]), (1, [2]), (1, [3]), (1, [4])]\<rparr>)
        sus_rng = Some (Inl UndefinedBehaviour)"
proof -
  have h: "m_selectionType (sus_engine\<lparr>m_population := [(1, [0]), (1, [1]), (1, [2]), (1, [3]), (1, [4])]\<rparr>)
      = StochasticUniversal"
    "length (m_population (sus_engine\<lparr>m_population := [(1, [0]), (1, [1]), (1, [2]), (1, [3]), (1, [4])]\<rparr>)) < 10"
    by (simp_all add: sus_engine_def setSelectionType_def GeneticAlgorithm_def)
  from StochasticUniversal_small_store[where
      ga = "sus_engine\<lparr>m_population := [(1, [0]), (1, [1]), (1, [2]), (1, [3]), (1, [4])]\<rparr>"
      and rng = sus_rng] h
  show ?thesis by (simp add: totalScore_def)
qed


text \<open>
  C9, the count returned. On the store of ten chromosomes of score 1 the count drawn is
  \<open>k = 1\<close> and, with the first score 0, two chromosomes are returned (the scores 0 and
  10 are both \<open>\<le> totalScore = 10\<close>): more than \<open>k\<close>. Every operation on the scores of
  this input is exact in \<^verbatim>\<open>double\<close>. And on a store of one entry the draw of the count
  has undefined behaviour.
\<close>

theorem StochasticUniversal_selects_more:
  "get_int 1 (int (length (m_population sus_engine) div 10)) sus_rng = Inr (1, sus_rng)
   \<and> select sus_engine sus_rng = Some (Inr ([[0], [9]], sus_rng))
   \<and> select (sus_engine\<lparr>m_population := [(1, [0])]\<rparr>) sus_rng = Some (Inl UndefinedBehaviour)"
proof -
  have a: "get_int 1 (int (length (m_population sus_engine) div 10)) sus_rng = Inr (1, sus_rng)"
    by (simp add: sus_engine_facts get_int_def sus_rng_def)
  have c: "select (sus_engine\<lparr>m_population := [(1, [0])]\<rparr>) sus_rng = Some (Inl UndefinedBehaviour)"
    by (simp add: select_def sus_engine_def setSelectionType_def GeneticAlgorithm_def get_int_def)
  from a sus_selection c show ?thesis by simp
qed

end
